theory Spec2Isabelle
  imports Complex_Main "HOL-Library.AList" "HOL-Library.Log_Nat" "HOL-Library.Sublist" "HOL-Library.Word"
begin

section \<open>Python values used by the service\<close>

text \<open>
  A \<open>UUID\<close> is a 128-bit number. A naive \<open>datetime\<close> is modelled by its offset in
  microseconds from a fixed origin; only the order of two readings of the clock matters.
  A \<open>str\<close> is a \<open>string\<close>, a list of characters, and a character is a code point below
  256 (Latin-1); code points from 256 on are not in the model.
\<close>

type_synonym uuid = "128 word"
type_synonym datetime = int

subsection \<open>Floats\<close>

text \<open>
  A Python \<open>float\<close> is an IEEE-754 binary64 value. A finite one is modelled by the
  rational number it denotes (the two zeros are not told apart, as Python's \<open>==\<close>
  does not), and every arithmetic operation rounds its exact result to the nearest
  binary64 value, ties to the even significand: 53 significant bits, exponents down
  to \<open>2 ^ - 1074\<close>, overflow to infinity from \<open>2 ^ 1024\<close> on.
\<close>

datatype pyfloat = Finite rat | PInf | NInf | NaN

function bit_length :: "int \<Rightarrow> int" where
  "bit_length n = (if n \<le> 0 then 0 else 1 + bit_length (n div 2))"
  by pat_completeness auto
termination
  by (relation "measure nat") auto

declare bit_length.simps [simp del]

definition pow2 :: "int \<Rightarrow> rat" where
  "pow2 k = (if 0 \<le> k then 2 ^ nat k else 1 / 2 ^ nat (- k))"

definition round_half_even :: "rat \<Rightarrow> int" where
  "round_half_even x =
     (let f = \<lfloor>x\<rfloor>; d = x - of_int f
      in if d < 1 / 2 then f
         else if 1 / 2 < d then f + 1
         else if even f then f else f + 1)"

text \<open>\<open>floor_log2 a\<close> is the \<open>k\<close> with \<open>2 ^ k \<le> a < 2 ^ (k + 1)\<close>, for \<open>a > 0\<close>.\<close>

definition floor_log2 :: "rat \<Rightarrow> int" where
  "floor_log2 a =
     (let (n, d) = quotient_of a;
          k = bit_length n - bit_length d
      in if pow2 k \<le> a then k else k - 1)"

text \<open>
  Rounding to binary64. The significand \<open>m\<close> is an integer of at most 53 bits at the
  exponent \<open>e\<close>; the largest finite value is \<open>(2 ^ 53 - 1) * 2 ^ 971\<close>.
\<close>

definition round64 :: "rat \<Rightarrow> pyfloat" where
  "round64 q =
     (if q = 0 then Finite 0
      else let a = \<bar>q\<bar>;
               e = max (floor_log2 a - 52) (- 1074);
               m = round_half_even (a / pow2 e)
           in if 971 < e \<or> (e = 971 \<and> 2 ^ 53 \<le> m) then (if 0 < q then PInf else NInf)
              else Finite (if 0 < q then of_int m * pow2 e else - (of_int m * pow2 e)))"

text \<open>Python's \<open>x + y\<close>, \<open>x * y\<close> and \<open>x >= y\<close> on floats.\<close>

fun fadd :: "pyfloat \<Rightarrow> pyfloat \<Rightarrow> pyfloat" where
  "fadd (Finite a) (Finite b) = round64 (a + b)"
| "fadd NaN y = NaN"
| "fadd x NaN = NaN"
| "fadd PInf NInf = NaN"
| "fadd NInf PInf = NaN"
| "fadd PInf y = PInf"
| "fadd NInf y = NInf"
| "fadd (Finite a) y = y"

definition fsign :: "pyfloat \<Rightarrow> int" where
  "fsign x = (case x of Finite q \<Rightarrow> (if q < 0 then - 1 else if q = 0 then 0 else 1)
                | PInf \<Rightarrow> 1 | NInf \<Rightarrow> - 1 | NaN \<Rightarrow> 0)"

fun fmul :: "pyfloat \<Rightarrow> pyfloat \<Rightarrow> pyfloat" where
  "fmul (Finite a) (Finite b) = round64 (a * b)"
| "fmul NaN y = NaN"
| "fmul x NaN = NaN"
| "fmul x y = (let s = fsign x * fsign y
               in if s = 0 then NaN else if 0 < s then PInf else NInf)"

fun fge :: "pyfloat \<Rightarrow> pyfloat \<Rightarrow> bool" where
  "fge (Finite a) (Finite b) = (b \<le> a)"
| "fge NaN y = False"
| "fge x NaN = False"
| "fge PInf y = True"
| "fge x NInf = True"
| "fge x y = False"

text \<open>
  \<open>round(x, ndigits)\<close> for \<open>ndigits \<ge> 0\<close>: the exact value of \<open>x\<close> is rounded to
  \<open>ndigits\<close> decimals, ties to even, and the decimal is read back as a float. An
  infinity or a NaN is returned as it is.
\<close>

fun py_round :: "pyfloat \<Rightarrow> nat \<Rightarrow> pyfloat" where
  "py_round (Finite q) ndigits =
     round64 (of_int (round_half_even (q * 10 ^ ndigits)) / 10 ^ ndigits)"
| "py_round x ndigits = x"

text \<open>A float literal such as \<open>9.99\<close> denotes the binary64 value nearest to the decimal.\<close>

definition float_lit :: "rat \<Rightarrow> pyfloat" where
  "float_lit q = round64 q"

subsection \<open>Exceptions\<close>

text \<open>
  The detail of the \<open>HTTPException\<close> raised for an unknown product is the f-string
  \<open>Unknown product_id: {li.product_id}\<close>; it is kept as the identifier it names.
  \<open>ValidationError\<close> is what a pydantic model raises when it is built from data that
  break its field declarations; \<open>AttributeError\<close> and \<open>OverflowError\<close> are Python's own.
\<close>

datatype detail = Detail string | Unknown_product_id uuid

datatype error =
    HTTPException nat detail
  | ValidationError
  | AttributeError
  | OverflowError

text \<open>
  An \<open>int\<close> that meets a float in \<open>*\<close> is converted first, rounded like every float;
  an \<open>int\<close> beyond the float range raises \<open>OverflowError\<close>.
\<close>

definition float_of_int :: "int \<Rightarrow> error + pyfloat" where
  "float_of_int n = (case round64 (of_int n) of
                       Finite r \<Rightarrow> Inr (Finite r)
                     | _ \<Rightarrow> Inl OverflowError)"

section \<open>The pydantic models\<close>

text \<open>
  A class with fields is a record; a subclass extends the record of its base. The
  \<open>Field\<close> constraints of a class are the predicate its constructor checks.

  An update class (\<open>ProductUpdate\<close>, \<open>OrderUpdate\<close>) remembers which fields the
  payload set: \<open>model_dump(exclude_unset=True)\<close> has a key for a field exactly when it
  was \<open>Provided\<close>, and the value under it may be \<open>None\<close>.
\<close>

datatype 'a field = Unset | Provided "'a option"

text \<open>\<open>data.update(updates)\<close>, one key at a time.\<close>

definition dict_update :: "'a option \<Rightarrow> 'a field \<Rightarrow> 'a option" where
  "dict_update old f = (case f of Unset \<Rightarrow> old | Provided v \<Rightarrow> v)"

subsection \<open>models/product.py\<close>

record ProductBase =
  p_id :: uuid
  p_name :: string
  p_description :: "string option"
  p_price :: pyfloat
  p_in_stock :: int

type_synonym ProductCreate = ProductBase

record ProductRead = ProductBase +
  p_created_at :: datetime
  p_updated_at :: datetime

record ProductUpdate =
  pu_name :: "string field"
  pu_description :: "string field"
  pu_price :: "pyfloat field"
  pu_in_stock :: "int field"

text \<open>
  The dict a product is dumped to and rebuilt from. A value may be \<open>None\<close> once an
  update has been laid over it; for the two timestamps \<open>None\<close> stands for a key that
  is not in the dict, so that the field's \<open>default_factory\<close> runs.
\<close>

record ProductDict =
  pd_id :: uuid
  pd_name :: "string option"
  pd_description :: "string option"
  pd_price :: "pyfloat option"
  pd_in_stock :: "int option"
  pd_created_at :: "datetime option"
  pd_updated_at :: "datetime option"

definition ProductBase_model_dump :: "'a ProductBase_scheme \<Rightarrow> ProductDict" where
  "ProductBase_model_dump p =
     \<lparr>pd_id = p_id p, pd_name = Some (p_name p), pd_description = p_description p,
      pd_price = Some (p_price p), pd_in_stock = Some (p_in_stock p),
      pd_created_at = None, pd_updated_at = None\<rparr>"

definition ProductRead_model_dump :: "ProductRead \<Rightarrow> ProductDict" where
  "ProductRead_model_dump p =
     (ProductBase_model_dump p)
       \<lparr>pd_created_at := Some (p_created_at p), pd_updated_at := Some (p_updated_at p)\<rparr>"

text \<open>
  The constraints of \<open>ProductBase\<close>: \<open>name\<close> of 1 to 100 characters, \<open>description\<close>
  of at most 500, \<open>price\<close> with \<open>ge=0.0\<close>, \<open>in_stock\<close> with \<open>ge=0\<close>. A float
  meets \<open>ge=0.0\<close> when \<open>price >= 0.0\<close> holds: plus infinity does, a NaN does not.
\<close>

definition ProductBase_constraints ::
    "string \<Rightarrow> string option \<Rightarrow> pyfloat \<Rightarrow> int \<Rightarrow> bool" where
  "ProductBase_constraints name description price in_stock \<longleftrightarrow>
     1 \<le> length name \<and> length name \<le> 100 \<and>
     (case description of None \<Rightarrow> True | Some s \<Rightarrow> length s \<le> 500) \<and>
     fge price (Finite 0) \<and>
     0 \<le> in_stock"

text \<open>
  \<open>ProductRead(**data)\<close>. \<open>now1\<close> and \<open>now2\<close> are what \<open>datetime.utcnow()\<close> returns
  when the \<open>default_factory\<close> of \<open>created_at\<close>, then that of \<open>updated_at\<close>, calls it.
\<close>

definition ProductRead_init :: "datetime \<Rightarrow> datetime \<Rightarrow> ProductDict \<Rightarrow> error + ProductRead" where
  "ProductRead_init now1 now2 d =
     (case (pd_name d, pd_price d, pd_in_stock d) of
        (Some name, Some price, Some in_stock) \<Rightarrow>
          if ProductBase_constraints name (pd_description d) price in_stock
          then Inr \<lparr>p_id = pd_id d, p_name = name, p_description = pd_description d,
                    p_price = price, p_in_stock = in_stock,
                    p_created_at = (case pd_created_at d of None \<Rightarrow> now1 | Some t \<Rightarrow> t),
                    p_updated_at = (case pd_updated_at d of None \<Rightarrow> now2 | Some t \<Rightarrow> t)\<rparr>
          else Inl ValidationError
      | _ \<Rightarrow> Inl ValidationError)"

subsection \<open>models/order.py\<close>

record LineItem =
  li_product_id :: uuid
  li_quantity :: int

record OrderBase =
  o_id :: uuid
  o_customer_name :: string
  o_items :: "LineItem list"
  o_note :: "string option"

type_synonym OrderCreate = OrderBase

record OrderRead = OrderBase +
  o_created_at :: datetime
  o_updated_at :: datetime
  o_total_amount :: pyfloat

record OrderUpdate =
  ou_customer_name :: "string field"
  ou_items :: "LineItem list field"
  ou_note :: "string field"

text \<open>
  A line item reaches the code either as a \<open>LineItem\<close> object or as the dict that
  \<open>model_dump\<close> makes of one: \<open>model_dump\<close> converts nested models too. An object
  has the attributes \<open>product_id\<close> and \<open>quantity\<close>; a dict has keys, not attributes.
\<close>

datatype item_value = LineItem_object LineItem | LineItem_dict LineItem

record OrderDict =
  od_id :: uuid
  od_customer_name :: "string option"
  od_items :: "item_value list"
  od_note :: "string option"
  od_created_at :: "datetime option"
  od_updated_at :: "datetime option"
  od_total_amount :: "pyfloat option"

definition OrderBase_model_dump :: "'a OrderBase_scheme \<Rightarrow> OrderDict" where
  "OrderBase_model_dump ord =
     \<lparr>od_id = o_id ord, od_customer_name = Some (o_customer_name ord),
      od_items = map LineItem_dict (o_items ord), od_note = o_note ord,
      od_created_at = None, od_updated_at = None, od_total_amount = None\<rparr>"

definition OrderRead_model_dump :: "OrderRead \<Rightarrow> OrderDict" where
  "OrderRead_model_dump ord =
     (OrderBase_model_dump ord)
       \<lparr>od_created_at := Some (o_created_at ord), od_updated_at := Some (o_updated_at ord),
        od_total_amount := Some (o_total_amount ord)\<rparr>"

text \<open>The constructor of a model takes a nested model as an object or as a dict.\<close>

fun LineItem_of :: "item_value \<Rightarrow> LineItem" where
  "LineItem_of (LineItem_object li) = li"
| "LineItem_of (LineItem_dict li) = li"

text \<open>
  The constraints of \<open>LineItem\<close> (\<open>quantity\<close> with \<open>gt=0\<close>), of \<open>OrderBase\<close>
  (\<open>customer_name\<close> of 1 to 100 characters, \<open>note\<close> of at most 280) and of
  \<open>OrderRead\<close> (\<open>total_amount\<close> with \<open>ge=0.0\<close>, default \<open>0.0\<close>).
\<close>

definition LineItem_constraints :: "LineItem \<Rightarrow> bool" where
  "LineItem_constraints li \<longleftrightarrow> 0 < li_quantity li"

definition OrderBase_constraints :: "string \<Rightarrow> LineItem list \<Rightarrow> string option \<Rightarrow> bool" where
  "OrderBase_constraints customer_name items note \<longleftrightarrow>
     1 \<le> length customer_name \<and> length customer_name \<le> 100 \<and>
     list_all LineItem_constraints items \<and>
     (case note of None \<Rightarrow> True | Some s \<Rightarrow> length s \<le> 280)"

definition OrderRead_init :: "datetime \<Rightarrow> datetime \<Rightarrow> OrderDict \<Rightarrow> error + OrderRead" where
  "OrderRead_init now1 now2 d =
     (case od_customer_name d of
        None \<Rightarrow> Inl ValidationError
      | Some customer_name \<Rightarrow>
          let items = map LineItem_of (od_items d);
              total_amount = (case od_total_amount d of None \<Rightarrow> Finite 0 | Some t \<Rightarrow> t)
          in if OrderBase_constraints customer_name items (od_note d)
                \<and> fge total_amount (Finite 0)
             then Inr \<lparr>o_id = od_id d, o_customer_name = customer_name, o_items = items,
                       o_note = od_note d,
                       o_created_at = (case od_created_at d of None \<Rightarrow> now1 | Some t \<Rightarrow> t),
                       o_updated_at = (case od_updated_at d of None \<Rightarrow> now2 | Some t \<Rightarrow> t),
                       o_total_amount = total_amount\<rparr>
             else Inl ValidationError)"

subsection \<open>models/address.py and models/person.py\<close>

text \<open>
  Modelled from the spec: \<open>models/address.py\<close> is not among the sources. The spec's data
  model gives an Address an identifier, street, city, state/region, postal code and country,
  none of them optional and no timestamp; these are the attributes \<open>main.py\<close> reads.
  \<open>AddressCreate\<close> carries the identifier (\<open>create_address\<close> reads \<open>address.id\<close>).
\<close>

record AddressBase =
  a_id :: uuid
  a_street :: string
  a_city :: string
  a_state :: string
  a_postal_code :: string
  a_country :: string

type_synonym AddressCreate = AddressBase
type_synonym AddressRead = AddressBase

text \<open>
  Modelled from the spec: the update class of \<open>models/address.py\<close>, with every field of an
  Address but the identifier, each of them optional.
\<close>

record AddressUpdate =
  au_street :: "string field"
  au_city :: "string field"
  au_state :: "string field"
  au_postal_code :: "string field"
  au_country :: "string field"

text \<open>
  Modelled from the spec: the dict that an Address of \<open>models/address.py\<close> is dumped to
  and rebuilt from; a value may be \<open>None\<close> once an update has been laid over it.
\<close>

record AddressDict =
  ad_id :: uuid
  ad_street :: "string option"
  ad_city :: "string option"
  ad_state :: "string option"
  ad_postal_code :: "string option"
  ad_country :: "string option"

text \<open>
  Modelled from the spec: \<open>model_dump()\<close> of an Address of \<open>models/address.py\<close>, a key for
  each field of the spec's data model.
\<close>

definition AddressBase_model_dump :: "AddressBase \<Rightarrow> AddressDict" where
  "AddressBase_model_dump a =
     \<lparr>ad_id = a_id a, ad_street = Some (a_street a), ad_city = Some (a_city a),
      ad_state = Some (a_state a), ad_postal_code = Some (a_postal_code a),
      ad_country = Some (a_country a)\<rparr>"

text \<open>
  Modelled from the spec: the constructor \<open>AddressRead(**data)\<close> of \<open>models/address.py\<close>; a
  field that the spec's data model does not call optional refuses \<open>None\<close>.
\<close>

definition AddressRead_init :: "AddressDict \<Rightarrow> error + AddressRead" where
  "AddressRead_init d =
     (case (ad_street d, ad_city d, ad_state d, ad_postal_code d, ad_country d) of
        (Some street, Some city, Some state, Some postal_code, Some country) \<Rightarrow>
          Inr \<lparr>a_id = ad_id d, a_street = street, a_city = city, a_state = state,
               a_postal_code = postal_code, a_country = country\<rparr>
      | _ \<Rightarrow> Inl ValidationError)"

text \<open>
  Modelled from the spec: the type of the birth date of a Person of \<open>models/person.py\<close>, a
  \<open>datetime.date\<close> of a year, a month and a day.
\<close>

datatype date = Date nat nat nat



text \<open>
  Modelled from the spec: \<open>models/person.py\<close> is not among the sources. The spec's data
  model gives a Person a university-id string, first and last name, email, phone, birth
  date and an ordered list of embedded Address values, none of them optional and no
  timestamp; these are the attributes \<open>main.py\<close> reads.
\<close>

record PersonBase =
  ps_uni :: string
  ps_first_name :: string
  ps_last_name :: string
  ps_email :: string
  ps_phone :: string
  ps_birth_date :: date
  ps_addresses :: "AddressBase list"

text \<open>
  Modelled from the spec: the create payload of \<open>models/person.py\<close>. It has the fields of
  a Person and no identifier: the spec names Address, Product and Order as the types that
  take an identifier from the client, and \<open>create_person\<close> never reads \<open>person.id\<close> (``each
  person gets its own UUID'').
\<close>

type_synonym PersonCreate = PersonBase

text \<open>
  Modelled from the spec: the stored Person of \<open>models/person.py\<close>, with its identifier;
  \<open>create_person\<close> reads the identifier of the \<open>PersonRead\<close> it builds.
\<close>

record PersonRead = PersonBase +
  ps_id :: uuid

text \<open>
  Modelled from the spec: the update class of \<open>models/person.py\<close>, with every field of a
  Person but the identifier, each of them optional.
\<close>

record PersonUpdate =
  psu_uni :: "string field"
  psu_first_name :: "string field"
  psu_last_name :: "string field"
  psu_email :: "string field"
  psu_phone :: "string field"
  psu_birth_date :: "date field"
  psu_addresses :: "AddressBase list field"

text \<open>
  Modelled from the spec: the dict that a Person of \<open>models/person.py\<close> is dumped to and
  rebuilt from; a value may be \<open>None\<close> once an update has been laid over it, and for the
  identifier \<open>None\<close> stands for a dict that has no \<open>id\<close>.
\<close>

record PersonDict =
  psd_id :: "uuid option"
  psd_uni :: "string option"
  psd_first_name :: "string option"
  psd_last_name :: "string option"
  psd_email :: "string option"
  psd_phone :: "string option"
  psd_birth_date :: "date option"
  psd_addresses :: "AddressBase list option"

text \<open>
  Modelled from the spec: \<open>model_dump()\<close> on the fields that the classes of
  \<open>models/person.py\<close> share, a key for each field of the spec's data model. This is the
  dump of a create payload, which has no \<open>id\<close>.
\<close>

definition PersonBase_model_dump :: "'a PersonBase_scheme \<Rightarrow> PersonDict" where
  "PersonBase_model_dump p =
     \<lparr>psd_id = None, psd_uni = Some (ps_uni p), psd_first_name = Some (ps_first_name p),
      psd_last_name = Some (ps_last_name p), psd_email = Some (ps_email p),
      psd_phone = Some (ps_phone p), psd_birth_date = Some (ps_birth_date p),
      psd_addresses = Some (ps_addresses p)\<rparr>"

text \<open>
  Modelled from the spec: \<open>model_dump()\<close> of a stored Person of \<open>models/person.py\<close>.
\<close>

definition PersonRead_model_dump :: "PersonRead \<Rightarrow> PersonDict" where
  "PersonRead_model_dump p = (PersonBase_model_dump p)\<lparr>psd_id := Some (ps_id p)\<rparr>"

text \<open>
  Modelled from the spec: the constructor \<open>PersonRead(**data)\<close> of \<open>models/person.py\<close>.
  \<open>uuid4\<close> is what the \<open>default_factory\<close> of the identifier returns when the dict has no
  \<open>id\<close>; a field that the spec's data model does not call optional refuses \<open>None\<close>.
\<close>

definition PersonRead_init :: "uuid \<Rightarrow> PersonDict \<Rightarrow> error + PersonRead" where
  "PersonRead_init uuid4 d =
     (case (psd_uni d, psd_first_name d, psd_last_name d, psd_email d, psd_phone d,
            psd_birth_date d, psd_addresses d) of
        (Some uni, Some first_name, Some last_name, Some email, Some phone,
         Some birth_date, Some addresses) \<Rightarrow>
          Inr \<lparr>ps_uni = uni, ps_first_name = first_name, ps_last_name = last_name,
               ps_email = email, ps_phone = phone, ps_birth_date = birth_date,
               ps_addresses = addresses,
               ps_id = (case psd_id d of None \<Rightarrow> uuid4 | Some i \<Rightarrow> i)\<rparr>
      | _ \<Rightarrow> Inl ValidationError)"

section \<open>The in-memory stores\<close>

text \<open>
  A Python \<open>dict\<close> keeps its keys in insertion order: it is a list of pairs with
  distinct keys. \<open>d[k] = v\<close> replaces the value in place or appends a new pair
  (\<open>AList.update\<close>), \<open>del d[k]\<close> removes the pair (\<open>AList.delete\<close>),
  \<open>d.get(k)\<close> is \<open>map_of\<close>, and \<open>d.values()\<close> lists the values in key order.
\<close>

type_synonym 'v store = "(uuid \<times> 'v) list"

definition dict_in :: "uuid \<Rightarrow> 'v store \<Rightarrow> bool" where
  "dict_in k d \<longleftrightarrow> map_of d k \<noteq> None"

definition dict_values :: "'v store \<Rightarrow> 'v list" where
  "dict_values d = map snd d"

record state =
  persons :: "PersonRead store"
  addresses :: "AddressRead store"
  products :: "ProductRead store"
  orders :: "OrderRead store"

definition empty_state :: state where
  "empty_state = \<lparr>persons = [], addresses = [], products = [], orders = []\<rparr>"

subsection \<open>Strings\<close>




section \<open>main.py\<close>

text \<open>
  An endpoint takes the stores and returns what it returns or raises, together with the
  stores as it leaves them. What \<open>datetime.utcnow()\<close> and \<open>uuid4()\<close> return is an
  argument of the endpoint that calls them.
\<close>

type_synonym 'a outcome = "(error + 'a) \<times> state"

subsection \<open>The order total\<close>

text \<open>
  The loop of \<open>compute_order_total\<close>; \<open>subtotal\<close> is the variable \<open>total\<close> as it
  stands before the items that are left. \<open>li.product_id\<close> is an attribute access.
\<close>

fun compute_order_total_loop ::
    "ProductRead store \<Rightarrow> pyfloat \<Rightarrow> item_value list \<Rightarrow> error + pyfloat" where
  "compute_order_total_loop ps subtotal [] = Inr subtotal"
| "compute_order_total_loop ps subtotal (LineItem_dict d # rest) = Inl AttributeError"
| "compute_order_total_loop ps subtotal (LineItem_object li # rest) =
     (case map_of ps (li_product_id li) of
        None \<Rightarrow> Inl (HTTPException 400 (Unknown_product_id (li_product_id li)))
      | Some prd \<Rightarrow>
          (case float_of_int (li_quantity li) of
             Inl e \<Rightarrow> Inl e
           | Inr q \<Rightarrow> compute_order_total_loop ps (fadd subtotal (fmul (p_price prd) q)) rest))"

definition compute_order_total :: "state \<Rightarrow> item_value list \<Rightarrow> error + pyfloat" where
  "compute_order_total st line_items =
     (case compute_order_total_loop (products st) (Finite 0) line_items of
        Inl e \<Rightarrow> Inl e
      | Inr subtotal \<Rightarrow> Inr (py_round subtotal 2))"

subsection \<open>Address endpoints\<close>

definition create_address :: "AddressCreate \<Rightarrow> state \<Rightarrow> AddressRead outcome" where
  "create_address address st =
     (if dict_in (a_id address) (addresses st)
      then (Inl (HTTPException 400 (Detail ''Address with this ID already exists'')), st)
      else (case AddressRead_init (AddressBase_model_dump address) of
              Inl e \<Rightarrow> (Inl e, st)
            | Inr a \<Rightarrow>
                (Inr a, st\<lparr>addresses := AList.update (a_id address) a (addresses st)\<rparr>)))"


definition get_address :: "uuid \<Rightarrow> state \<Rightarrow> error + AddressRead" where
  "get_address address_id st =
     (case map_of (addresses st) address_id of
        None \<Rightarrow> Inl (HTTPException 404 (Detail ''Address not found''))
      | Some a \<Rightarrow> Inr a)"

definition update_address :: "uuid \<Rightarrow> AddressUpdate \<Rightarrow> state \<Rightarrow> AddressRead outcome" where
  "update_address address_id update st =
     (case map_of (addresses st) address_id of
        None \<Rightarrow> (Inl (HTTPException 404 (Detail ''Address not found'')), st)
      | Some a \<Rightarrow>
          let stored = AddressBase_model_dump a;
              stored = stored
                \<lparr>ad_street := dict_update (ad_street stored) (au_street update),
                 ad_city := dict_update (ad_city stored) (au_city update),
                 ad_state := dict_update (ad_state stored) (au_state update),
                 ad_postal_code := dict_update (ad_postal_code stored) (au_postal_code update),
                 ad_country := dict_update (ad_country stored) (au_country update)\<rparr>
          in (case AddressRead_init stored of
                Inl e \<Rightarrow> (Inl e, st)
              | Inr a' \<Rightarrow>
                  (Inr a', st\<lparr>addresses := AList.update address_id a' (addresses st)\<rparr>)))"

subsection \<open>Person endpoints\<close>

definition create_person :: "uuid \<Rightarrow> PersonCreate \<Rightarrow> state \<Rightarrow> PersonRead outcome" where
  "create_person uuid4 person st =
     (case PersonRead_init uuid4 (PersonBase_model_dump person) of
        Inl e \<Rightarrow> (Inl e, st)
      | Inr person_read \<Rightarrow>
          (Inr person_read,
           st\<lparr>persons := AList.update (ps_id person_read) person_read (persons st)\<rparr>))"


definition get_person :: "uuid \<Rightarrow> state \<Rightarrow> error + PersonRead" where
  "get_person person_id st =
     (case map_of (persons st) person_id of
        None \<Rightarrow> Inl (HTTPException 404 (Detail ''Person not found''))
      | Some p \<Rightarrow> Inr p)"

text \<open>
  A stored snapshot is dumped with its identifier (and, for a product or an order, with
  both timestamps), so no \<open>default_factory\<close> runs when an update endpoint rebuilds it: the
  values passed for them to the constructor are not read.
\<close>

definition update_person :: "uuid \<Rightarrow> PersonUpdate \<Rightarrow> state \<Rightarrow> PersonRead outcome" where
  "update_person person_id update st =
     (case map_of (persons st) person_id of
        None \<Rightarrow> (Inl (HTTPException 404 (Detail ''Person not found'')), st)
      | Some p \<Rightarrow>
          let stored = PersonRead_model_dump p;
              stored = stored
                \<lparr>psd_uni := dict_update (psd_uni stored) (psu_uni update),
                 psd_first_name := dict_update (psd_first_name stored) (psu_first_name update),
                 psd_last_name := dict_update (psd_last_name stored) (psu_last_name update),
                 psd_email := dict_update (psd_email stored) (psu_email update),
                 psd_phone := dict_update (psd_phone stored) (psu_phone update),
                 psd_birth_date := dict_update (psd_birth_date stored) (psu_birth_date update),
                 psd_addresses := dict_update (psd_addresses stored) (psu_addresses update)\<rparr>
          in (case PersonRead_init (ps_id p) stored of
                Inl e \<Rightarrow> (Inl e, st)
              | Inr p' \<Rightarrow>
                  (Inr p', st\<lparr>persons := AList.update person_id p' (persons st)\<rparr>)))"

subsection \<open>Product endpoints\<close>

definition create_product :: "datetime \<Rightarrow> datetime \<Rightarrow> ProductCreate \<Rightarrow> state \<Rightarrow> ProductRead outcome" where
  "create_product now1 now2 product st =
     (if dict_in (p_id product) (products st)
      then (Inl (HTTPException 400 (Detail ''Product with this ID already exists'')), st)
      else (case ProductRead_init now1 now2 (ProductBase_model_dump product) of
              Inl e \<Rightarrow> (Inl e, st)
            | Inr prd \<Rightarrow>
                (Inr prd, st\<lparr>products := AList.update (p_id prd) prd (products st)\<rparr>)))"



definition get_product :: "uuid \<Rightarrow> state \<Rightarrow> error + ProductRead" where
  "get_product product_id st =
     (case map_of (products st) product_id of
        None \<Rightarrow> Inl (HTTPException 404 (Detail ''Product not found''))
      | Some p \<Rightarrow> Inr p)"

definition update_product :: "datetime \<Rightarrow> uuid \<Rightarrow> ProductUpdate \<Rightarrow> state \<Rightarrow> ProductRead outcome" where
  "update_product now product_id patch st =
     (case map_of (products st) product_id of
        None \<Rightarrow> (Inl (HTTPException 404 (Detail ''Product not found'')), st)
      | Some p \<Rightarrow>
          let data = ProductRead_model_dump p;
              data = data
                \<lparr>pd_name := dict_update (pd_name data) (pu_name patch),
                 pd_description := dict_update (pd_description data) (pu_description patch),
                 pd_price := dict_update (pd_price data) (pu_price patch),
                 pd_in_stock := dict_update (pd_in_stock data) (pu_in_stock patch)\<rparr>;
              data = data\<lparr>pd_updated_at := Some now\<rparr>
          in (case ProductRead_init now now data of
                Inl e \<Rightarrow> (Inl e, st)
              | Inr updated \<Rightarrow>
                  (Inr updated, st\<lparr>products := AList.update product_id updated (products st)\<rparr>)))"

definition delete_product :: "uuid \<Rightarrow> state \<Rightarrow> unit outcome" where
  "delete_product product_id st =
     (if \<not> dict_in product_id (products st)
      then (Inl (HTTPException 404 (Detail ''Product not found'')), st)
      else (Inr (), st\<lparr>products := AList.delete product_id (products st)\<rparr>))"

subsection \<open>Order endpoints\<close>

definition create_order :: "datetime \<Rightarrow> datetime \<Rightarrow> OrderCreate \<Rightarrow> state \<Rightarrow> OrderRead outcome" where
  "create_order now1 now2 ord st =
     (case compute_order_total st (map LineItem_object (o_items ord)) of
        Inl e \<Rightarrow> (Inl e, st)
      | Inr total_amount \<Rightarrow>
          let data = OrderBase_model_dump ord;
              data = data\<lparr>od_total_amount := Some total_amount\<rparr>
          in (case OrderRead_init now1 now2 data of
                Inl e \<Rightarrow> (Inl e, st)
              | Inr orr \<Rightarrow>
                  if dict_in (o_id orr) (orders st)
                  then (Inl (HTTPException 400 (Detail ''Order with this ID already exists'')), st)
                  else (Inr orr, st\<lparr>orders := AList.update (o_id orr) orr (orders st)\<rparr>)))"


definition get_order :: "uuid \<Rightarrow> state \<Rightarrow> error + OrderRead" where
  "get_order order_id st =
     (case map_of (orders st) order_id of
        None \<Rightarrow> Inl (HTTPException 404 (Detail ''Order not found''))
      | Some ord \<Rightarrow> Inr ord)"

text \<open>
  \<open>updates = patch.model_dump(exclude_unset=True)\<close>: the items under \<open>updates["items"]\<close>
  are dicts. The three \<open>if\<close> of \<open>update_order\<close> are the three steps on \<open>data\<close>; the second
  one calls \<open>compute_order_total\<close> on \<open>updates["items"]\<close> and may raise.
\<close>

definition update_order :: "datetime \<Rightarrow> uuid \<Rightarrow> OrderUpdate \<Rightarrow> state \<Rightarrow> OrderRead outcome" where
  "update_order now order_id patch st =
     (case map_of (orders st) order_id of
        None \<Rightarrow> (Inl (HTTPException 404 (Detail ''Order not found'')), st)
      | Some ord \<Rightarrow>
          let data = OrderRead_model_dump ord;
              data = (case ou_customer_name patch of
                        Provided (Some v) \<Rightarrow> data\<lparr>od_customer_name := Some v\<rparr>
                      | _ \<Rightarrow> data);
              data_or_error =
                (case ou_items patch of
                   Provided (Some v) \<Rightarrow>
                     let items = map LineItem_dict v;
                         data = data\<lparr>od_items := items\<rparr>
                     in (case compute_order_total st items of
                           Inl e \<Rightarrow> Inl e
                         | Inr total_amount \<Rightarrow> Inr (data\<lparr>od_total_amount := Some total_amount\<rparr>))
                 | _ \<Rightarrow> Inr data)
          in (case data_or_error of
                Inl e \<Rightarrow> (Inl e, st)
              | Inr data \<Rightarrow>
                  let data = (case ou_note patch of
                                Provided v \<Rightarrow> data\<lparr>od_note := v\<rparr>
                              | Unset \<Rightarrow> data);
                      data = data\<lparr>od_updated_at := Some now\<rparr>
                  in (case OrderRead_init now now data of
                        Inl e \<Rightarrow> (Inl e, st)
                      | Inr updated \<Rightarrow>
                          (Inr updated,
                           st\<lparr>orders := AList.update order_id updated (orders st)\<rparr>))))"

definition delete_order :: "uuid \<Rightarrow> state \<Rightarrow> unit outcome" where
  "delete_order order_id st =
     (if \<not> dict_in order_id (orders st)
      then (Inl (HTTPException 404 (Detail ''Order not found'')), st)
      else (Inr (), st\<lparr>orders := AList.delete order_id (orders st)\<rparr>))"

section \<open>What the claims speak about\<close>

subsection \<open>Well-formed payloads and snapshots\<close>

text \<open>
  An endpoint receives a payload that its class has validated, and a store holds
  snapshots that the constructor of the read class has accepted.
\<close>

definition ProductRead_valid :: "ProductRead \<Rightarrow> bool" where
  "ProductRead_valid p \<longleftrightarrow>
     ProductBase_constraints (p_name p) (p_description p) (p_price p) (p_in_stock p)"

definition ProductCreate_valid :: "ProductCreate \<Rightarrow> bool" where
  "ProductCreate_valid p \<longleftrightarrow>
     ProductBase_constraints (p_name p) (p_description p) (p_price p) (p_in_stock p)"

definition OrderCreate_valid :: "OrderCreate \<Rightarrow> bool" where
  "OrderCreate_valid ord \<longleftrightarrow>
     OrderBase_constraints (o_customer_name ord) (o_items ord) (o_note ord)"

definition OrderRead_valid :: "OrderRead \<Rightarrow> bool" where
  "OrderRead_valid ord \<longleftrightarrow>
     OrderBase_constraints (o_customer_name ord) (o_items ord) (o_note ord) \<and>
     fge (o_total_amount ord) (Finite 0)"

text \<open>The constraints of \<open>OrderUpdate\<close> bind the values that are provided and not \<open>None\<close>.\<close>

definition OrderUpdate_valid :: "OrderUpdate \<Rightarrow> bool" where
  "OrderUpdate_valid patch \<longleftrightarrow>
     (case ou_customer_name patch of
        Provided (Some v) \<Rightarrow> 1 \<le> length v \<and> length v \<le> 100 | _ \<Rightarrow> True) \<and>
     (case ou_items patch of
        Provided (Some v) \<Rightarrow> list_all LineItem_constraints v | _ \<Rightarrow> True) \<and>
     (case ou_note patch of
        Provided (Some v) \<Rightarrow> length v \<le> 280 | _ \<Rightarrow> True)"

subsection \<open>The total of an order, as the spec words it\<close>

text \<open>
  The price of a line: the price of its product times its quantity. The total: the
  sum of the lines from \<open>0.0\<close> on, in item order, rounded to two decimals.
\<close>

definition line_amount :: "ProductRead store \<Rightarrow> LineItem \<Rightarrow> pyfloat" where
  "line_amount ps li =
     (case (map_of ps (li_product_id li), float_of_int (li_quantity li)) of
        (Some prd, Inr q) \<Rightarrow> fmul (p_price prd) q
      | _ \<Rightarrow> NaN)"

definition rounded_sum :: "ProductRead store \<Rightarrow> LineItem list \<Rightarrow> pyfloat" where
  "rounded_sum ps items = py_round (foldl fadd (Finite 0) (map (line_amount ps) items)) 2"

text \<open>
  A line resolves when its product is in the store and its quantity is in float range:
  \<open>float\<close> converts it and does not raise \<open>OverflowError\<close>.
\<close>

definition resolvable :: "ProductRead store \<Rightarrow> LineItem \<Rightarrow> bool" where
  "resolvable ps li \<longleftrightarrow>
     map_of ps (li_product_id li) \<noteq> None \<and> float_of_int (li_quantity li) \<noteq> Inl OverflowError"

subsection \<open>Containment up to case\<close>

text \<open>
  The letters that have two cases, each capital with its small letter: \<open>A\<close> to \<open>Z\<close>, and
  the accented letters of Latin-1, from \<open>A\<close> with a grave accent (\<open>0xC0\<close>, small \<open>0xE0\<close>)
  to the letter thorn (\<open>0xDE\<close>, small \<open>0xFE\<close>). Two characters are the same up to case
  when they are equal or are the two cases of one letter.
\<close>

definition letters :: "(char \<times> char) list" where
  "letters =
     zip (''ABCDEFGHIJKLMNOPQRSTUVWXYZ'' @
          [CHR 0xC0, CHR 0xC1, CHR 0xC2, CHR 0xC3, CHR 0xC4, CHR 0xC5,
           CHR 0xC6, CHR 0xC7, CHR 0xC8, CHR 0xC9, CHR 0xCA, CHR 0xCB,
           CHR 0xCC, CHR 0xCD, CHR 0xCE, CHR 0xCF, CHR 0xD0, CHR 0xD1,
           CHR 0xD2, CHR 0xD3, CHR 0xD4, CHR 0xD5, CHR 0xD6, CHR 0xD8,
           CHR 0xD9, CHR 0xDA, CHR 0xDB, CHR 0xDC, CHR 0xDD, CHR 0xDE])
         (''abcdefghijklmnopqrstuvwxyz'' @
          [CHR 0xE0, CHR 0xE1, CHR 0xE2, CHR 0xE3, CHR 0xE4, CHR 0xE5,
           CHR 0xE6, CHR 0xE7, CHR 0xE8, CHR 0xE9, CHR 0xEA, CHR 0xEB,
           CHR 0xEC, CHR 0xED, CHR 0xEE, CHR 0xEF, CHR 0xF0, CHR 0xF1,
           CHR 0xF2, CHR 0xF3, CHR 0xF4, CHR 0xF5, CHR 0xF6, CHR 0xF8,
           CHR 0xF9, CHR 0xFA, CHR 0xFB, CHR 0xFC, CHR 0xFD, CHR 0xFE])"

definition same_letter :: "char \<Rightarrow> char \<Rightarrow> bool" where
  "same_letter c d \<longleftrightarrow> c = d \<or> (c, d) \<in> set letters \<or> (d, c) \<in> set letters"

text \<open>
  A string starts with a literal up to case when its first characters are those of the
  literal, each up to case. It contains the literal up to case when it starts with it
  at some position.
\<close>

fun starts_with_ignoring_case :: "string \<Rightarrow> string \<Rightarrow> bool" where
  "starts_with_ignoring_case s [] \<longleftrightarrow> True"
| "starts_with_ignoring_case [] (d # lit) \<longleftrightarrow> False"
| "starts_with_ignoring_case (c # s) (d # lit) \<longleftrightarrow>
     same_letter c d \<and> starts_with_ignoring_case s lit"

fun contains_ignoring_case :: "string \<Rightarrow> string \<Rightarrow> bool" where
  "contains_ignoring_case [] lit \<longleftrightarrow> lit = []"
| "contains_ignoring_case (c # s) lit \<longleftrightarrow>
     starts_with_ignoring_case (c # s) lit \<or> contains_ignoring_case s lit"

subsection \<open>Runs of the service\<close>

text \<open>
  The requests that write to a store, each with the readings of the clock (and the
  \<open>uuid4\<close> draw) that serving it takes, and the stores after a sequence of them, from
  the empty stores of a fresh process. A request that fails before it reads the clock
  carries its readings all the same; they have no effect then.
\<close>

datatype request =
    Create_address AddressCreate
  | Update_address uuid AddressUpdate
  | Create_person uuid PersonCreate
  | Update_person uuid PersonUpdate
  | Create_product datetime datetime ProductCreate
  | Update_product datetime uuid ProductUpdate
  | Delete_product uuid
  | Create_order datetime datetime OrderCreate
  | Update_order datetime uuid OrderUpdate
  | Delete_order uuid

fun handle :: "request \<Rightarrow> state \<Rightarrow> state" where
  "handle (Create_address a) st = snd (create_address a st)"
| "handle (Update_address i u) st = snd (update_address i u st)"
| "handle (Create_person u p) st = snd (create_person u p st)"
| "handle (Update_person i u) st = snd (update_person i u st)"
| "handle (Create_product t1 t2 p) st = snd (create_product t1 t2 p st)"
| "handle (Update_product t i u) st = snd (update_product t i u st)"
| "handle (Delete_product i) st = snd (delete_product i st)"
| "handle (Create_order t1 t2 c) st = snd (create_order t1 t2 c st)"
| "handle (Update_order t i u) st = snd (update_order t i u st)"
| "handle (Delete_order i) st = snd (delete_order i st)"

fun clock_reads :: "request \<Rightarrow> datetime list" where
  "clock_reads (Create_product t1 t2 p) = [t1, t2]"
| "clock_reads (Update_product t i u) = [t]"
| "clock_reads (Create_order t1 t2 c) = [t1, t2]"
| "clock_reads (Update_order t i u) = [t]"
| "clock_reads r = []"

definition run :: "request list \<Rightarrow> state" where
  "run rs = fold handle rs empty_state"

text \<open>The clock does not go back over a run: its readings, in request order, are sorted.\<close>

definition clock_non_decreasing :: "request list \<Rightarrow> bool" where
  "clock_non_decreasing rs \<longleftrightarrow> sorted (concat (map clock_reads rs))"

subsection \<open>A small shop\<close>

text \<open>
  Two products, at \<open>9.99\<close> and \<open>5.00\<close>, and Alice's order of two of the first and one of
  the second.
\<close>

definition widget :: ProductRead where
  "widget = \<lparr>p_id = 1, p_name = ''Widget'', p_description = None,
              p_price = float_lit (999 / 100), p_in_stock = 100,
              p_created_at = 10, p_updated_at = 10\<rparr>"

definition pro_widget :: ProductRead where
  "pro_widget = \<lparr>p_id = 2, p_name = ''PRO-WIDGET'', p_description = Some ''Upgraded widget'',
                  p_price = float_lit 5, p_in_stock = 25,
                  p_created_at = 11, p_updated_at = 12\<rparr>"

definition shop :: state where
  "shop = empty_state\<lparr>products := [(1, widget), (2, pro_widget)]\<rparr>"

definition alice_items :: "LineItem list" where
  "alice_items = [\<lparr>li_product_id = 1, li_quantity = 2\<rparr>, \<lparr>li_product_id = 2, li_quantity = 1\<rparr>]"

definition alice_create :: OrderCreate where
  "alice_create = \<lparr>o_id = 7, o_customer_name = ''Alice'', o_items = alice_items, o_note = None\<rparr>"

definition alice_order :: OrderRead where
  "alice_order = \<lparr>o_id = 7, o_customer_name = ''Alice'', o_items = alice_items, o_note = None,
                   o_created_at = 20, o_updated_at = 21, o_total_amount = float_lit (2498 / 100)\<rparr>"

definition shop_with_order :: state where
  "shop_with_order = shop\<lparr>orders := [(7, alice_order)]\<rparr>"

text \<open>
  Four patches of Alice's order: a new note and nothing else, a new list of items, a new
  name with a new list of items and a new note, and \<open>null\<close> for every field. And an order
  for Bob whose first quantity is \<open>2 ^ 1024\<close> and whose second product, 99, is not in the
  shop.
\<close>

definition note_patch :: OrderUpdate where
  "note_patch = \<lparr>ou_customer_name = Unset, ou_items = Unset,
                  ou_note = Provided (Some ''Ring the bell twice.'')\<rparr>"

definition items_patch :: OrderUpdate where
  "items_patch = \<lparr>ou_customer_name = Unset,
                   ou_items = Provided (Some [\<lparr>li_product_id = 1, li_quantity = 3\<rparr>]),
                   ou_note = Unset\<rparr>"

definition gift_patch :: OrderUpdate where
  "gift_patch = \<lparr>ou_customer_name = Provided (Some ''Alicia''),
                  ou_items = Provided (Some [\<lparr>li_product_id = 2, li_quantity = 1\<rparr>]),
                  ou_note = Provided (Some ''A gift.'')\<rparr>"

definition null_patch :: OrderUpdate where
  "null_patch = \<lparr>ou_customer_name = Provided None, ou_items = Provided None,
                  ou_note = Provided None\<rparr>"

definition bob_create :: OrderCreate where
  "bob_create = \<lparr>o_id = 8, o_customer_name = ''Bob'',
                  o_items = [\<lparr>li_product_id = 1, li_quantity = 2 ^ 1024\<rparr>,
                             \<lparr>li_product_id = 99, li_quantity = 1\<rparr>],
                  o_note = None\<rparr>"

subsection \<open>A small address book\<close>

text \<open>
  Ada lives in Boston, Grace in a town spelt \<open>boston\<close>; the address book holds both, and
  the Boston address on its own. Alan is the person that \<open>create_person\<close> makes of Alan's
  payload when \<open>uuid4\<close> draws 13.
\<close>

definition boston :: AddressBase where
  "boston = \<lparr>a_id = 3, a_street = ''1 Main St'', a_city = ''Boston'', a_state = ''MA'',
              a_postal_code = ''02101'', a_country = ''USA''\<rparr>"

definition small_boston :: AddressBase where
  "small_boston = \<lparr>a_id = 4, a_street = ''2 High St'', a_city = ''boston'', a_state = ''LIN'',
                    a_postal_code = ''PE21'', a_country = ''UK''\<rparr>"

definition ada :: PersonRead where
  "ada = \<lparr>ps_uni = ''al1815'', ps_first_name = ''Ada'', ps_last_name = ''Lovelace'',
           ps_email = ''ada@example.org'', ps_phone = ''555-0100'',
           ps_birth_date = Date 1815 12 10, ps_addresses = [boston], ps_id = 5\<rparr>"

definition grace :: PersonRead where
  "grace = \<lparr>ps_uni = ''gh1906'', ps_first_name = ''Grace'', ps_last_name = ''Hopper'',
             ps_email = ''grace@example.org'', ps_phone = ''555-0101'',
             ps_birth_date = Date 1906 12 9, ps_addresses = [small_boston], ps_id = 6\<rparr>"

definition address_book :: state where
  "address_book = empty_state\<lparr>persons := [(5, ada), (6, grace)], addresses := [(3, boston)]\<rparr>"

definition alan_create :: PersonCreate where
  "alan_create = \<lparr>ps_uni = ''at1912'', ps_first_name = ''Alan'', ps_last_name = ''Turing'',
                   ps_email = ''alan@example.org'', ps_phone = ''555-0102'',
                   ps_birth_date = Date 1912 6 23, ps_addresses = []\<rparr>"

definition alan :: PersonRead where
  "alan = \<lparr>ps_uni = ''at1912'', ps_first_name = ''Alan'', ps_last_name = ''Turing'',
            ps_email = ''alan@example.org'', ps_phone = ''555-0102'',
            ps_birth_date = Date 1912 6 23, ps_addresses = [], ps_id = 13\<rparr>"

definition gadget_create :: ProductCreate where
  "gadget_create = \<lparr>p_id = 9, p_name = ''Gadget'', p_description = None,
                     p_price = float_lit (1449 / 100), p_in_stock = 42\<rparr>"

definition gadget :: ProductRead where
  "gadget = \<lparr>p_id = 9, p_name = ''Gadget'', p_description = None,
              p_price = float_lit (1449 / 100), p_in_stock = 42,
              p_created_at = 40, p_updated_at = 41\<rparr>"




text \<open>An order that carries identifier 7, which is Alice's order, and names product 99.\<close>

definition carol_create :: OrderCreate where
  "carol_create = \<lparr>o_id = 7, o_customer_name = ''Carol'',
                    o_items = [\<lparr>li_product_id = 99, li_quantity = 1\<rparr>], o_note = None\<rparr>"

text \<open>A second create payload for product 1, and a patch of a product's name.\<close>

definition widget_again :: ProductCreate where
  "widget_again = \<lparr>p_id = 1, p_name = ''Widget II'', p_description = None,
                    p_price = float_lit 1, p_in_stock = 1\<rparr>"

definition rename_patch :: ProductUpdate where
  "rename_patch = \<lparr>pu_name = Provided (Some ''Widget X''), pu_description = Unset,
                    pu_price = Unset, pu_in_stock = Unset\<rparr>"

subsection \<open>What a patch does to one field\<close>

text \<open>
  \<open>replaced old f new\<close>: the field was not provided and keeps its value, or it was provided
  and has the provided value; \<open>replaced_nullable\<close> is the same for a field that may be
  \<open>None\<close>.
\<close>

definition replaced :: "'a \<Rightarrow> 'a field \<Rightarrow> 'a \<Rightarrow> bool" where
  "replaced old f new \<longleftrightarrow> (case f of Unset \<Rightarrow> new = old | Provided v \<Rightarrow> v = Some new)"

definition replaced_nullable :: "'a option \<Rightarrow> 'a field \<Rightarrow> 'a option \<Rightarrow> bool" where
  "replaced_nullable old f new \<longleftrightarrow> (case f of Unset \<Rightarrow> new = old | Provided v \<Rightarrow> new = v)"

text \<open>The constraints of \<open>ProductUpdate\<close> bind the values that are provided and not \<open>None\<close>.\<close>

definition ProductUpdate_valid :: "ProductUpdate \<Rightarrow> bool" where
  "ProductUpdate_valid patch \<longleftrightarrow>
     (case pu_name patch of
        Provided (Some v) \<Rightarrow> 1 \<le> length v \<and> length v \<le> 100 | _ \<Rightarrow> True) \<and>
     (case pu_description patch of
        Provided (Some v) \<Rightarrow> length v \<le> 500 | _ \<Rightarrow> True) \<and>
     (case pu_price patch of
        Provided (Some v) \<Rightarrow> fge v (Finite 0) | _ \<Rightarrow> True) \<and>
     (case pu_in_stock patch of
        Provided (Some v) \<Rightarrow> 0 \<le> v | _ \<Rightarrow> True)"

subsection \<open>Timestamps\<close>

text \<open>
  Every stored product and order was created no later than it was last updated; and,
  for the induction over a run, it was last updated no later than \<open>t\<close>.
\<close>

definition timestamps_ordered :: "state \<Rightarrow> bool" where
  "timestamps_ordered st \<longleftrightarrow>
     list_all (\<lambda>p. p_created_at p \<le> p_updated_at p) (dict_values (products st)) \<and>
     list_all (\<lambda>ord. o_created_at ord \<le> o_updated_at ord) (dict_values (orders st))"

definition stamped_before :: "datetime \<Rightarrow> state \<Rightarrow> bool" where
  "stamped_before t st \<longleftrightarrow>
     list_all (\<lambda>p. p_updated_at p \<le> t) (dict_values (products st)) \<and>
     list_all (\<lambda>ord. o_updated_at ord \<le> t) (dict_values (orders st))"

text \<open>A run: a gadget is created, renamed, and ordered by Dave, who then changes the note.\<close>

definition dave_create :: OrderCreate where
  "dave_create = \<lparr>o_id = 12, o_customer_name = ''Dave'',
                   o_items = [\<lparr>li_product_id = 9, li_quantity = 3\<rparr>], o_note = None\<rparr>"

definition busy_day :: "request list" where
  "busy_day = [Create_product 40 41 gadget_create, Update_product 50 9 rename_patch,
               Create_order 60 60 dave_create, Update_order 75 12 note_patch]"

section \<open>Facts about floats\<close>

lemma bit_length_bitlen: "bit_length n = bitlen n"
proof (induction n rule: bit_length.induct)
  case (1 n)
  show ?case
  proof (cases "n \<le> 0")
    case True
    then show ?thesis
      by (simp add: bit_length.simps [of n] bitlen_alt_def)
  next
    case False
    then have "bit_length n = 1 + bitlen (n div 2)"
      using 1 by (simp add: bit_length.simps [of n])
    also have "\<dots> = bitlen n"
      using False compute_bitlen [of n] by simp
    finally show ?thesis .
  qed
qed

lemma bit_length_bounds:
  assumes "0 < n"
  shows "2 ^ nat (bit_length n - 1) \<le> n" and "n < 2 ^ nat (bit_length n)" and "1 \<le> bit_length n"
  using assms bitlen_bounds [of n] by (auto simp: bit_length_bitlen bitlen_alt_def)

lemma pow2_pos [simp]: "0 < pow2 k"
  by (simp add: pow2_def)

lemma pow2_nat: "pow2 (int n) = 2 ^ n"
  by (simp add: pow2_def)

lemma pow2_add: "pow2 (i + j) = pow2 i * pow2 j"
proof -
  have "pow2 k = 2 powi k" for k
    by (simp add: pow2_def power_int_def field_simps)
  then show ?thesis
    by (simp add: power_int_add)
qed

lemma pow2_powi: "pow2 k = 2 powi k"
  by (simp add: pow2_def power_int_def field_simps)

lemma pow2_mono: "i \<le> j \<Longrightarrow> pow2 i \<le> pow2 j"
  by (simp add: pow2_powi power_int_increasing)

lemma pow2_diff: "pow2 (i - j) = pow2 i / pow2 j"
  by (simp add: pow2_powi power_int_diff)
lemma floor_log2_bounds:
  assumes "0 < a"
  shows "pow2 (floor_log2 a) \<le> a" and "a < pow2 (floor_log2 a + 1)"
proof -
  obtain n d where q: "quotient_of a = (n, d)"
    by (cases "quotient_of a")
  have d: "0 < d"
    using q quotient_of_denom_pos by blast
  have a: "a = of_int n / of_int d"
    using q quotient_of_div by blast
  have n: "0 < n"
    using assms d a by (simp add: zero_less_divide_iff)
  define bn where "bn = bit_length n"
  define bd where "bd = bit_length d"
  have n_lo: "pow2 (bn - 1) \<le> of_int n" and n_hi: "of_int n < pow2 bn"
   and d_lo: "pow2 (bd - 1) \<le> of_int d" and d_hi: "of_int d < pow2 bd"
  proof -
    have "pow2 (bn - 1) = of_int (2 ^ nat (bn - 1))"
      using bit_length_bounds(3) [OF n] by (simp add: pow2_def bn_def)
    then show "pow2 (bn - 1) \<le> of_int n"
      using bit_length_bounds(1) [OF n] unfolding bn_def by (metis of_int_le_iff)
    have "pow2 bn = of_int (2 ^ nat bn)"
      using bit_length_bounds(3) [OF n] by (simp add: pow2_def bn_def)
    then show "of_int n < pow2 bn"
      using bit_length_bounds(2) [OF n] unfolding bn_def by (metis of_int_less_iff)
    have "pow2 (bd - 1) = of_int (2 ^ nat (bd - 1))"
      using bit_length_bounds(3) [OF d] by (simp add: pow2_def bd_def)
    then show "pow2 (bd - 1) \<le> of_int d"
      using bit_length_bounds(1) [OF d] unfolding bd_def by (metis of_int_le_iff)
    have "pow2 bd = of_int (2 ^ nat bd)"
      using bit_length_bounds(3) [OF d] by (simp add: pow2_def bd_def)
    then show "of_int d < pow2 bd"
      using bit_length_bounds(2) [OF d] unfolding bd_def by (metis of_int_less_iff)
  qed
  have hi: "a < pow2 (bn - bd + 1)"
  proof -
    have "a < pow2 bn / of_int d"
      unfolding a by (rule divide_strict_right_mono) (use n_hi d in auto)
    also have "\<dots> \<le> pow2 bn / pow2 (bd - 1)"
      by (rule frac_le) (use d_lo in \<open>auto simp: less_imp_le\<close>)
    also have "\<dots> = pow2 (bn - bd + 1)"
      using pow2_diff [of bn "bd - 1"] by (simp add: algebra_simps)
    finally show ?thesis .
  qed
  have lo: "pow2 (bn - bd - 1) \<le> a"
  proof -
    have "pow2 (bn - bd - 1) = pow2 (bn - 1) / pow2 bd"
      using pow2_diff [of "bn - 1" bd] by (simp add: algebra_simps)
    also have "\<dots> \<le> of_int n / pow2 bd"
      by (rule divide_right_mono) (use n_lo in \<open>auto simp: less_imp_le\<close>)
    also have "\<dots> \<le> of_int n / of_int d"
      by (rule frac_le) (use d_hi d n in \<open>auto simp: less_imp_le\<close>)
    finally show ?thesis
      by (simp add: a)
  qed
  have fl: "floor_log2 a = (if pow2 (bn - bd) \<le> a then bn - bd else bn - bd - 1)"
    by (simp add: floor_log2_def q bn_def bd_def Let_def)
  show "pow2 (floor_log2 a) \<le> a"
    using lo by (simp add: fl)
  show "a < pow2 (floor_log2 a + 1)"
    using hi by (auto simp: fl not_le)
qed
lemma pow2_0 [simp]: "pow2 0 = 1"
  by (simp add: pow2_def)

lemma round_half_even_ge: "of_int k \<le> x \<Longrightarrow> k \<le> round_half_even x"
proof -
  assume "of_int k \<le> x"
  then have "k \<le> \<lfloor>x\<rfloor>"
    by (simp add: le_floor_iff)
  moreover have "\<lfloor>x\<rfloor> \<le> round_half_even x"
    by (simp add: round_half_even_def Let_def)
  ultimately show ?thesis
    by simp
qed

lemma round_half_even_nonneg: "0 \<le> x \<Longrightarrow> 0 \<le> round_half_even x"
  using round_half_even_ge [of 0 x] by simp

lemma round_half_even_of_int [simp]: "round_half_even (of_int k) = k"
  by (simp add: round_half_even_def)

lemma round64_overflow:
  assumes "pow2 1024 \<le> q"
  shows "round64 q = PInf"
proof -
  have q: "0 < q"
    using assms pow2_pos [of 1024] by linarith
  have "1024 \<le> floor_log2 q"
  proof (rule ccontr)
    assume "\<not> 1024 \<le> floor_log2 q"
    then have "floor_log2 q + 1 \<le> 1024"
      by simp
    then have "pow2 (floor_log2 q + 1) \<le> pow2 1024"
      by (rule pow2_mono)
    with floor_log2_bounds(2) [OF q] assms show False
      by linarith
  qed
  then have "1023 < floor_log2 q"
    by simp
  then show ?thesis
    using q by (simp add: round64_def Let_def)
qed

text \<open>A float is at least zero: it is plus infinity, or finite and at least 0.\<close>

lemma round64_not_negative:
  assumes "0 \<le> q"
  shows "fge (round64 q) (Finite 0)"
proof (cases "q = 0")
  case True
  then show ?thesis
    by (simp add: round64_def)
next
  case False
  with assms have q: "0 < q"
    by simp
  define e where "e = max (floor_log2 \<bar>q\<bar> - 52) (- 1074)"
  have "0 \<le> round_half_even (\<bar>q\<bar> / pow2 e)"
    by (rule round_half_even_nonneg) (simp add: less_imp_le)
  then have "0 \<le> (of_int (round_half_even (\<bar>q\<bar> / pow2 e)) :: rat) * pow2 e"
    by (simp add: less_imp_le)
  then show ?thesis
    using q by (simp add: round64_def Let_def e_def)
qed

lemma round64_positive:
  assumes "1 \<le> q"
  shows "round64 q = PInf \<or> (\<exists>r. 0 < r \<and> round64 q = Finite r)"
proof -
  have q: "0 < q"
    using assms by simp
  define fl where "fl = floor_log2 q"
  have fl: "0 \<le> fl"
  proof (rule ccontr)
    assume "\<not> 0 \<le> fl"
    then have "fl + 1 \<le> 0"
      by simp
    then have "pow2 (fl + 1) \<le> pow2 0"
      by (rule pow2_mono)
    with floor_log2_bounds(2) [OF q] assms show False
      by (simp add: fl_def)
  qed
  then have e: "max (fl - 52) (- 1074) = fl - 52"
    by simp
  have "pow2 52 = pow2 fl / pow2 (fl - 52)"
    using pow2_diff [of fl "fl - 52"] by simp
  also have "\<dots> \<le> q / pow2 (fl - 52)"
    by (rule divide_right_mono) (use floor_log2_bounds(1) [OF q] in \<open>auto simp: fl_def less_imp_le\<close>)
  finally have "of_int (2 ^ 52) \<le> q / pow2 (fl - 52)"
    by (simp add: pow2_def)
  then have "2 ^ 52 \<le> round_half_even (q / pow2 (fl - 52))"
    by (rule round_half_even_ge)
  moreover have "(0::int) < 2 ^ 52"
    by simp
  ultimately have "0 < round_half_even (q / pow2 (fl - 52))"
    by linarith
  then have "0 < (of_int (round_half_even (q / pow2 (fl - 52))) :: rat) * pow2 (fl - 52)"
    by simp
  then show ?thesis
    using q e by (simp add: round64_def Let_def fl_def)
qed

lemma round64_finite:
  assumes "q \<noteq> 0" and "\<not> (971 < e \<or> (e = 971 \<and> 2 ^ 53 \<le> m))"
    and "e = max (floor_log2 \<bar>q\<bar> - 52) (- 1074)"
    and "m = round_half_even (\<bar>q\<bar> / pow2 e)"
  shows "round64 q = Finite (if 0 < q then of_int m * pow2 e else - (of_int m * pow2 e))"
proof -
  have "round64 q =
          (if 971 < e \<or> (e = 971 \<and> 2 ^ 53 \<le> m) then (if 0 < q then PInf else NInf)
           else Finite (if 0 < q then of_int m * pow2 e else - (of_int m * pow2 e)))"
    unfolding round64_def Let_def assms(3,4) [symmetric] using assms(1) by (rule if_not_P)
  also have "\<dots> = Finite (if 0 < q then of_int m * pow2 e else - (of_int m * pow2 e))"
    using assms(2) by (rule if_not_P)
  finally show ?thesis .
qed

lemma round64_of_int_exact:
  assumes "\<bar>n\<bar> < 2 ^ 53"
  shows "round64 (of_int n) = Finite (of_int n)"
proof (cases "n = 0")
  case True
  then show ?thesis
    by (simp add: round64_def)
next
  case False
  define a :: rat where "a = \<bar>of_int n\<bar>"
  have a: "1 \<le> a" "0 < a" "a < pow2 53" "a = of_int \<bar>n\<bar>"
  proof -
    show a_int: "a = of_int \<bar>n\<bar>"
      by (simp add: a_def)
    have "1 \<le> \<bar>n\<bar>"
      using False by simp
    then show "1 \<le> a"
      unfolding a_int by (metis of_int_1_le_iff)
    then show "0 < a"
      by simp
    have "(of_int \<bar>n\<bar> :: rat) < of_int (2 ^ 53)"
      using assms by (metis of_int_less_iff)
    then show "a < pow2 53"
      by (simp add: a_int pow2_def)
  qed
  define fl where "fl = floor_log2 a"
  have fl0: "0 \<le> fl"
  proof (rule ccontr)
    assume "\<not> 0 \<le> fl"
    then have "fl + 1 \<le> 0"
      by simp
    then have "pow2 (fl + 1) \<le> pow2 0"
      by (rule pow2_mono)
    with floor_log2_bounds(2) [OF a(2)] a(1) show False
      by (simp add: fl_def)
  qed
  have fl52: "fl \<le> 52"
  proof (rule ccontr)
    assume "\<not> fl \<le> 52"
    then have "53 \<le> fl"
      by simp
    then have "pow2 53 \<le> pow2 fl"
      by (rule pow2_mono)
    with floor_log2_bounds(1) [OF a(2)] a(3) show False
      by (simp add: fl_def)
  qed
  have e: "max (fl - 52) (- 1074) = fl - 52"
    using fl0 by simp
  have "a / pow2 (fl - 52) = a * pow2 (52 - fl)"
    using pow2_diff [of 0 "fl - 52"] by simp
  also have "\<dots> = of_int (\<bar>n\<bar> * 2 ^ nat (52 - fl))"
    using fl52 by (simp add: a(4) pow2_def)
  finally have m: "round_half_even (a / pow2 (fl - 52)) = \<bar>n\<bar> * 2 ^ nat (52 - fl)"
    by (simp only: round_half_even_of_int)
  have undo: "(of_int (\<bar>n\<bar> * 2 ^ nat (52 - fl)) :: rat) * pow2 (fl - 52) = a"
  proof -
    have "(of_int (\<bar>n\<bar> * 2 ^ nat (52 - fl)) :: rat) = a * pow2 (52 - fl)"
      using fl52 by (simp add: a(4) pow2_def)
    moreover have "pow2 (52 - fl) * pow2 (fl - 52) = 1"
      using pow2_add [of "52 - fl" "fl - 52"] by simp
    ultimately show ?thesis
      by (simp add: mult.assoc)
  qed
  have ne: "\<not> (971 < fl - 52 \<or> (fl - 52 = 971 \<and> (2::int) ^ 53 \<le> \<bar>n\<bar> * 2 ^ nat (52 - fl)))"
    using fl52 by simp
  have n0: "(of_int n :: rat) \<noteq> 0"
    using False by simp
  have "round64 (of_int n) =
          Finite (if 0 < (of_int n :: rat)
                  then of_int (\<bar>n\<bar> * 2 ^ nat (52 - fl)) * pow2 (fl - 52)
                  else - (of_int (\<bar>n\<bar> * 2 ^ nat (52 - fl)) * pow2 (fl - 52)))"
    by (rule round64_finite [OF n0 ne]) (simp_all only: e m a_def [symmetric] fl_def [symmetric])
  also have "\<dots> = Finite (if 0 < (of_int n :: rat) then a else - a)"
    by (simp only: undo)
  also have "\<dots> = Finite (of_int n)"
    by (simp add: a_def)
  finally show ?thesis .
qed
lemma float_of_int_overflow:
  assumes "2 ^ 1024 \<le> n"
  shows "float_of_int n = Inl OverflowError"
proof -
  have "(of_int (2 ^ 1024) :: rat) \<le> of_int n"
    using assms by (metis of_int_le_iff)
  then have "pow2 1024 \<le> of_int n"
    by (simp add: pow2_def)
  then have "round64 (of_int n) = PInf"
    by (rule round64_overflow)
  then show ?thesis
    by (simp add: float_of_int_def)
qed

lemma float_of_int_exact:
  "\<bar>n\<bar> < 2 ^ 53 \<Longrightarrow> float_of_int n = Inr (Finite (of_int n))"
  by (simp add: float_of_int_def round64_of_int_exact)

lemma float_of_int_positive:
  assumes "0 < n" and "float_of_int n = Inr q"
  shows "\<exists>r. 0 < r \<and> q = Finite r"
proof -
  have "(1::rat) \<le> of_int n"
    using assms(1) by simp
  from round64_positive [OF this] assms(2) show ?thesis
    by (auto simp: float_of_int_def)
qed

lemma float_of_int_cases:
  "float_of_int n = Inl OverflowError \<or> (\<exists>r. float_of_int n = Inr (Finite r))"
  by (simp add: float_of_int_def split: pyfloat.splits)

lemma fadd_not_negative:
  assumes "fge x (Finite 0)" and "fge y (Finite 0)"
  shows "fge (fadd x y) (Finite 0)"
proof (cases x)
  case (Finite a)
  note x = this
  show ?thesis
  proof (cases y)
    case (Finite b)
    then have "0 \<le> a + b"
      using assms x by simp
    then show ?thesis
      using x Finite by (simp add: round64_not_negative)
  qed (use assms x in auto)
qed (use assms in \<open>cases y; auto\<close>)+

lemma fmul_not_negative:
  assumes "fge x (Finite 0)" and "0 < r"
  shows "fge (fmul x (Finite r)) (Finite 0)"
proof (cases x)
  case (Finite a)
  then have "0 \<le> a * r"
    using assms by simp
  then show ?thesis
    using Finite by (simp add: round64_not_negative)
qed (use assms in \<open>auto simp: fsign_def\<close>)

lemma py_round_not_negative:
  assumes "fge x (Finite 0)"
  shows "fge (py_round x n) (Finite 0)"
proof (cases x)
  case (Finite q)
  then have "0 \<le> q * 10 ^ n"
    using assms by simp
  then have "0 \<le> (of_int (round_half_even (q * 10 ^ n)) :: rat) / 10 ^ n"
    by (simp add: round_half_even_nonneg)
  then show ?thesis
    using Finite by (simp add: round64_not_negative)
qed (use assms in auto)

lemma round_half_even_0 [simp]: "round_half_even 0 = 0"
  by (simp add: round_half_even_def)

lemma round64_0 [simp]: "round64 0 = Finite 0"
  by (simp add: round64_def)

lemma py_round_0 [simp]: "py_round (Finite 0) n = Finite 0"
  by simp

section \<open>Facts about the endpoints\<close>

lemma update_absent: "map_of al k = None \<Longrightarrow> AList.update k v al = al @ [(k, v)]"
  by (induction al) (auto split: if_splits)

lemma map_of_update_same: "map_of (AList.update k v al) k = Some v"
  by (simp add: update_conv')

lemma loop_resolvable:
  "list_all (resolvable ps) items \<Longrightarrow>
   compute_order_total_loop ps subtotal (map LineItem_object items) =
     Inr (foldl fadd subtotal (map (line_amount ps) items))"
proof (induction items arbitrary: subtotal)
  case Nil
  then show ?case by simp
next
  case (Cons li items)
  from Cons.prems obtain prd q
    where "map_of ps (li_product_id li) = Some prd" and "float_of_int (li_quantity li) = Inr q"
    using float_of_int_cases [of "li_quantity li"] by (auto simp: resolvable_def)
  then show ?case
    using Cons by (simp add: line_amount_def)
qed

lemma compute_order_total_resolvable:
  "list_all (resolvable (products st)) items \<Longrightarrow>
   compute_order_total st (map LineItem_object items) = Inr (rounded_sum (products st) items)"
  by (simp add: compute_order_total_def loop_resolvable rounded_sum_def)

lemma loop_first_unresolvable:
  assumes "list_all (resolvable ps) before" and "\<not> resolvable ps li"
  shows "compute_order_total_loop ps subtotal (map LineItem_object (before @ li # after)) =
           Inl (if map_of ps (li_product_id li) = None
                then HTTPException 400 (Unknown_product_id (li_product_id li))
                else OverflowError)"
  using assms(1)
proof (induction before arbitrary: subtotal)
  case Nil
  show ?case
    using assms(2) float_of_int_cases [of "li_quantity li"]
    by (auto simp: resolvable_def split: option.splits)
next
  case (Cons x before)
  from Cons.prems obtain prd q
    where "map_of ps (li_product_id x) = Some prd" and "float_of_int (li_quantity x) = Inr q"
    using float_of_int_cases [of "li_quantity x"] by (auto simp: resolvable_def)
  then show ?case
    using Cons by simp
qed

lemma loop_dicts:
  "compute_order_total_loop ps subtotal (map LineItem_dict (li # items)) = Inl AttributeError"
  by simp

lemma compute_order_total_dicts:
  "compute_order_total st (map LineItem_dict items) =
     (if items = [] then Inr (Finite 0) else Inl AttributeError)"
  by (cases items) (simp_all add: compute_order_total_def)

lemma line_amount_not_negative:
  assumes "\<forall>p \<in> snd ` set ps. fge (p_price p) (Finite 0)"
    and "resolvable ps li" and "0 < li_quantity li"
  shows "fge (line_amount ps li) (Finite 0)"
proof -
  from assms(2) obtain prd q
    where prd: "map_of ps (li_product_id li) = Some prd" and q: "float_of_int (li_quantity li) = Inr q"
    using float_of_int_cases [of "li_quantity li"] by (auto simp: resolvable_def)
  from float_of_int_positive [OF assms(3) q] obtain r where r: "0 < r" "q = Finite r"
    by blast
  have "prd \<in> snd ` set ps"
    using prd by (metis map_of_SomeD image_eqI snd_conv)
  then have "fge (p_price prd) (Finite 0)"
    using assms(1) by blast
  then show ?thesis
    using prd q r by (simp add: line_amount_def fmul_not_negative)
qed

lemma foldl_fadd_not_negative:
  "fge subtotal (Finite 0) \<Longrightarrow> \<forall>x \<in> set xs. fge x (Finite 0) \<Longrightarrow>
   fge (foldl fadd subtotal xs) (Finite 0)"
  by (induction xs arbitrary: subtotal) (simp_all add: fadd_not_negative)

lemma rounded_sum_not_negative:
  assumes "\<forall>p \<in> snd ` set ps. fge (p_price p) (Finite 0)"
    and "list_all (resolvable ps) items" and "list_all LineItem_constraints items"
  shows "fge (rounded_sum ps items) (Finite 0)"
proof -
  have "fge (line_amount ps li) (Finite 0)" if "li \<in> set items" for li
    using that assms(2,3) line_amount_not_negative [OF assms(1), of li]
    by (simp add: list_all_iff LineItem_constraints_def)
  then have "\<forall>x \<in> set (map (line_amount ps) items). fge x (Finite 0)"
    by auto
  then have "fge (foldl fadd (Finite 0) (map (line_amount ps) items)) (Finite 0)"
    by (intro foldl_fadd_not_negative) simp_all
  then show ?thesis
    by (simp add: rounded_sum_def py_round_not_negative)
qed

lemma OrderRead_init_dump:
  "OrderRead_init now1 now2 ((OrderBase_model_dump ord)\<lparr>od_total_amount := Some t\<rparr>) =
     (if OrderBase_constraints (o_customer_name ord) (o_items ord) (o_note ord) \<and> fge t (Finite 0)
      then Inr \<lparr>o_id = o_id ord, o_customer_name = o_customer_name ord, o_items = o_items ord,
                o_note = o_note ord, o_created_at = now1, o_updated_at = now2,
                o_total_amount = t\<rparr>
      else Inl ValidationError)"
  by (simp add: OrderRead_init_def OrderBase_model_dump_def Let_def comp_def)

lemma create_order_fails_unchanged:
  "fst (create_order now1 now2 ord st) = Inl e \<Longrightarrow> snd (create_order now1 now2 ord st) = st"
  by (auto simp: create_order_def Let_def split: sum.splits if_splits)

lemma create_order_succeeds:
  assumes "OrderCreate_valid ord"
    and "list_all (resolvable (products st)) (o_items ord)"
    and "\<forall>p \<in> snd ` set (products st). fge (p_price p) (Finite 0)"
    and "\<not> dict_in (o_id ord) (orders st)"
  shows "create_order now1 now2 ord st =
           (let orr = \<lparr>o_id = o_id ord, o_customer_name = o_customer_name ord,
                       o_items = o_items ord, o_note = o_note ord,
                       o_created_at = now1, o_updated_at = now2,
                       o_total_amount = rounded_sum (products st) (o_items ord)\<rparr>
            in (Inr orr, st\<lparr>orders := orders st @ [(o_id ord, orr)]\<rparr>))"
proof -
  have c: "OrderBase_constraints (o_customer_name ord) (o_items ord) (o_note ord)"
    using assms(1) by (simp add: OrderCreate_valid_def)
  then have "list_all LineItem_constraints (o_items ord)"
    by (simp add: OrderBase_constraints_def)
  then have t: "fge (rounded_sum (products st) (o_items ord)) (Finite 0)"
    using assms(2,3) by (intro rounded_sum_not_negative)
  have absent: "map_of (orders st) (o_id ord) = None"
    using assms(4) by (simp add: dict_in_def)
  show ?thesis
    using assms(4) c t
    by (simp add: create_order_def compute_order_total_resolvable [OF assms(2)]
        OrderRead_init_dump Let_def update_absent [OF absent])
qed

lemma create_order_first_unresolvable:
  assumes "o_items ord = before @ li # after"
    and "list_all (resolvable (products st)) before" and "\<not> resolvable (products st) li"
  shows "create_order now1 now2 ord st =
           (Inl (if map_of (products st) (li_product_id li) = None
                 then HTTPException 400 (Unknown_product_id (li_product_id li))
                 else OverflowError), st)"
  using loop_first_unresolvable [OF assms(2,3), of "Finite 0" after]
  by (simp add: create_order_def compute_order_total_def assms(1))

lemma create_order_duplicate:
  assumes "dict_in (o_id ord) (orders st)"
  shows "\<exists>e. create_order now1 now2 ord st = (Inl e, st)"
  using assms
  by (auto simp: create_order_def Let_def OrderRead_init_dump split: sum.splits)

lemma update_order_fails_unchanged:
  "fst (update_order now order_id patch st) = Inl e \<Longrightarrow>
   snd (update_order now order_id patch st) = st"
  by (auto simp: update_order_def Let_def split: sum.splits option.splits field.splits)

lemma update_order_items_raises:
  assumes "map_of (orders st) order_id = Some ord"
    and "ou_items patch = Provided (Some (li # items))"
  shows "update_order now order_id patch st = (Inl AttributeError, st)"
  using assms by (simp add: update_order_def Let_def compute_order_total_def)

lemma OrderRead_init_stored:
  "OrderRead_init now1 now2
     ((OrderRead_model_dump ord)
        \<lparr>od_customer_name := Some name, od_items := map LineItem_dict items,
         od_total_amount := Some t, od_note := note, od_updated_at := Some now\<rparr>) =
     (if OrderBase_constraints name items note \<and> fge t (Finite 0)
      then Inr \<lparr>o_id = o_id ord, o_customer_name = name, o_items = items,
                o_note = note, o_created_at = o_created_at ord, o_updated_at = now,
                o_total_amount = t\<rparr>
      else Inl ValidationError)"
  by (simp add: OrderRead_init_def OrderRead_model_dump_def OrderBase_model_dump_def Let_def comp_def)

text \<open>What \<open>update_order\<close> makes of each field of the stored order.\<close>

lemma update_order_eq:
  assumes "map_of (orders st) order_id = Some ord"
    and "ou_items patch = Unset \<or> ou_items patch = Provided None
           \<or> ou_items patch = Provided (Some [])"
  shows "update_order now order_id patch st =
     (let name = (case ou_customer_name patch of Provided (Some v) \<Rightarrow> v | _ \<Rightarrow> o_customer_name ord);
          items = (case ou_items patch of Provided (Some v) \<Rightarrow> v | _ \<Rightarrow> o_items ord);
          t = (case ou_items patch of Provided (Some v) \<Rightarrow> Finite 0 | _ \<Rightarrow> o_total_amount ord);
          note = (case ou_note patch of Provided v \<Rightarrow> v | Unset \<Rightarrow> o_note ord)
      in if OrderBase_constraints name items note \<and> fge t (Finite 0)
         then let updated = \<lparr>o_id = o_id ord, o_customer_name = name, o_items = items,
                              o_note = note, o_created_at = o_created_at ord,
                              o_updated_at = now, o_total_amount = t\<rparr>
              in (Inr updated, st\<lparr>orders := AList.update order_id updated (orders st)\<rparr>)
         else (Inl ValidationError, st))"
  using assms
  by (auto simp: update_order_def Let_def compute_order_total_def OrderRead_init_def
      OrderRead_model_dump_def OrderBase_model_dump_def comp_def
      split: field.splits option.splits)

lemma shop_products [simp]:
  "map_of (products shop) 1 = Some widget" "map_of (products shop) 2 = Some pro_widget"
  "map_of (products shop) 99 = None" "products shop_with_order = products shop"
  by (simp_all add: shop_def shop_with_order_def empty_state_def)

lemma shop_orders [simp]:
  "orders shop = []" "orders shop_with_order = [(7, alice_order)]"
  by (simp_all add: shop_def shop_with_order_def empty_state_def)

lemma alice_order_valid: "OrderRead_valid alice_order"
  by code_simp

lemma alice_create_shop: "create_order 20 21 alice_create shop = (Inr alice_order, shop_with_order)"
  by code_simp

lemma create_order_products:
  "products (snd (create_order now1 now2 ord st)) = products st"
  by (simp add: create_order_def Let_def split: sum.splits)

lemma update_order_products:
  "products (snd (update_order now order_id patch st)) = products st"
  by (simp add: update_order_def Let_def split: sum.splits option.splits field.splits)

lemma update_order_succeeds:
  assumes "map_of (orders st) order_id = Some ord"
    and "ou_items patch = Unset \<or> ou_items patch = Provided None"
    and "OrderRead_valid ord" and "OrderUpdate_valid patch"
  shows "\<exists>updated. update_order now order_id patch st =
           (Inr updated, st\<lparr>orders := AList.update order_id updated (orders st)\<rparr>)"
proof -
  have "OrderBase_constraints
          (case ou_customer_name patch of Provided (Some v) \<Rightarrow> v | _ \<Rightarrow> o_customer_name ord)
          (o_items ord)
          (case ou_note patch of Provided v \<Rightarrow> v | Unset \<Rightarrow> o_note ord)"
    using assms(3,4)
    by (auto simp: OrderRead_valid_def OrderUpdate_valid_def OrderBase_constraints_def
        split: field.splits option.splits)
  moreover have "fge (o_total_amount ord) (Finite 0)"
    using assms(3) by (simp add: OrderRead_valid_def)
  ultimately show ?thesis
    using assms(2) by (auto simp: update_order_eq [OF assms(1)] Let_def)
qed

lemma update_order_without_items:
  assumes "map_of (orders st) order_id = Some ord" and "ou_items patch = Unset"
  shows "fst (update_order now order_id patch st) = Inr updated \<Longrightarrow>
           o_items updated = o_items ord \<and> o_total_amount updated = o_total_amount ord \<and>
           map_of (orders (snd (update_order now order_id patch st))) order_id = Some updated"
    and "fst (update_order now order_id patch (st\<lparr>products := ps\<rparr>)) =
           fst (update_order now order_id patch st)"
    and "OrderRead_valid ord \<Longrightarrow> OrderUpdate_valid patch \<Longrightarrow>
           \<exists>updated. fst (update_order now order_id patch st) = Inr updated"
proof -
  have items: "ou_items patch = Unset \<or> ou_items patch = Provided None \<or>
                 ou_items patch = Provided (Some [])"
    using assms(2) by simp
  show "o_items updated = o_items ord \<and> o_total_amount updated = o_total_amount ord \<and>
          map_of (orders (snd (update_order now order_id patch st))) order_id = Some updated"
    if "fst (update_order now order_id patch st) = Inr updated"
    using that assms(2)
    by (auto simp: update_order_eq [OF assms(1) items] Let_def map_of_update_same
        split: if_splits)
  have "map_of (orders (st\<lparr>products := ps\<rparr>)) order_id = Some ord"
    using assms(1) by simp
  from update_order_eq [OF this, of patch now] update_order_eq [OF assms(1) items, of now]
  show "fst (update_order now order_id patch (st\<lparr>products := ps\<rparr>)) =
          fst (update_order now order_id patch st)"
    using items by (simp add: Let_def)
  show "\<exists>updated. fst (update_order now order_id patch st) = Inr updated"
    if "OrderRead_valid ord" "OrderUpdate_valid patch"
    using update_order_succeeds [OF assms(1) _ that, of now] assms(2) by auto
qed

lemma update_order_null_customer_name:
  "update_order now order_id (patch\<lparr>ou_customer_name := Provided None\<rparr>) st =
   update_order now order_id (patch\<lparr>ou_customer_name := Unset\<rparr>) st"
  by (simp add: update_order_def Let_def cong: option.case_cong sum.case_cong field.case_cong)

lemma update_order_null_items:
  "update_order now order_id (patch\<lparr>ou_items := Provided None\<rparr>) st =
   update_order now order_id (patch\<lparr>ou_items := Unset\<rparr>) st"
  by (simp add: update_order_def Let_def cong: option.case_cong sum.case_cong field.case_cong)

lemma update_order_updated_at:
  "fst (update_order now order_id patch st) = Inr updated \<Longrightarrow> o_updated_at updated = now"
  by (auto simp: update_order_def Let_def OrderRead_init_def
      split: sum.splits option.splits field.splits if_splits)

lemma update_order_null_note:
  "fst (update_order now order_id (patch\<lparr>ou_note := Provided None\<rparr>) st) = Inr updated \<Longrightarrow>
   o_note updated = None"
  by (auto simp: update_order_def Let_def OrderRead_init_def
      split: sum.splits option.splits field.splits if_splits)

lemma update_order_all_null:
  assumes "map_of (orders st) order_id = Some ord" and "OrderRead_valid ord"
  shows "update_order now order_id
           \<lparr>ou_customer_name = Provided None, ou_items = Provided None, ou_note = Provided None\<rparr> st =
         (Inr (ord\<lparr>o_note := None, o_updated_at := now\<rparr>),
          st\<lparr>orders := AList.update order_id (ord\<lparr>o_note := None, o_updated_at := now\<rparr>) (orders st)\<rparr>)"
proof -
  have c: "OrderBase_constraints (o_customer_name ord) (o_items ord) None"
    using assms(2) by (simp add: OrderRead_valid_def OrderBase_constraints_def)
  have t: "fge (o_total_amount ord) (Finite 0)"
    using assms(2) by (simp add: OrderRead_valid_def)
  have r: "ord\<lparr>o_note := None, o_updated_at := now\<rparr> =
             \<lparr>o_id = o_id ord, o_customer_name = o_customer_name ord, o_items = o_items ord,
              o_note = None, o_created_at = o_created_at ord, o_updated_at = now,
              o_total_amount = o_total_amount ord\<rparr>"
    by simp
  show ?thesis
    unfolding r using c t by (simp add: update_order_eq [OF assms(1)] Let_def)
qed

lemma create_address_eq:
  "create_address address st =
     (if dict_in (a_id address) (addresses st)
      then (Inl (HTTPException 400 (Detail ''Address with this ID already exists'')), st)
      else (Inr address, st\<lparr>addresses := AList.update (a_id address) address (addresses st)\<rparr>))"
  by (cases address) (simp add: create_address_def AddressRead_init_def AddressBase_model_dump_def)

lemma create_person_eq:
  "create_person uuid4 person st =
     (let person_read = \<lparr>ps_uni = ps_uni person, ps_first_name = ps_first_name person,
                          ps_last_name = ps_last_name person, ps_email = ps_email person,
                          ps_phone = ps_phone person, ps_birth_date = ps_birth_date person,
                          ps_addresses = ps_addresses person, ps_id = uuid4\<rparr>
      in (Inr person_read,
          st\<lparr>persons := AList.update (ps_id person_read) person_read (persons st)\<rparr>))"
  by (simp add: create_person_def PersonRead_init_def PersonBase_model_dump_def Let_def)

lemma create_product_eq:
  "create_product now1 now2 product st =
     (if dict_in (p_id product) (products st)
      then (Inl (HTTPException 400 (Detail ''Product with this ID already exists'')), st)
      else if ProductBase_constraints (p_name product) (p_description product) (p_price product)
                (p_in_stock product)
      then let prd = \<lparr>p_id = p_id product, p_name = p_name product,
                        p_description = p_description product, p_price = p_price product,
                        p_in_stock = p_in_stock product,
                        p_created_at = now1, p_updated_at = now2\<rparr>
           in (Inr prd, st\<lparr>products := AList.update (p_id product) prd (products st)\<rparr>)
      else (Inl ValidationError, st))"
  by (simp add: create_product_def ProductRead_init_def ProductBase_model_dump_def Let_def)

lemma create_order_stored:
  "create_order now1 now2 ord st = (Inr orr, st') \<Longrightarrow> map_of (orders st') (o_id orr) = Some orr"
  by (auto simp: create_order_def Let_def map_of_update_same split: sum.splits if_splits)














lemma contains_ignoring_case_empty [simp]: "contains_ignoring_case s []"
  by (induction s) simp_all



lemma create_order_conflict:
  assumes "dict_in (o_id ord) (orders st)"
    and "OrderCreate_valid ord"
    and "list_all (resolvable (products st)) (o_items ord)"
    and "\<forall>p \<in> snd ` set (products st). fge (p_price p) (Finite 0)"
  shows "create_order now1 now2 ord st =
           (Inl (HTTPException 400 (Detail ''Order with this ID already exists'')), st)"
proof -
  have c: "OrderBase_constraints (o_customer_name ord) (o_items ord) (o_note ord)"
    using assms(2) by (simp add: OrderCreate_valid_def)
  then have "list_all LineItem_constraints (o_items ord)"
    by (simp add: OrderBase_constraints_def)
  then have t: "fge (rounded_sum (products st) (o_items ord)) (Finite 0)"
    using assms(3,4) by (intro rounded_sum_not_negative)
  show ?thesis
    using assms(1) c t
    by (simp add: create_order_def compute_order_total_resolvable [OF assms(3)]
        OrderRead_init_dump Let_def)
qed

lemma dict_update_replaced: "dict_update (Some old) f = Some new \<Longrightarrow> replaced old f new"
  by (cases f) (simp_all add: dict_update_def replaced_def)

lemma dict_update_replaced_nullable: "dict_update old f = new \<Longrightarrow> replaced_nullable old f new"
  by (cases f) (simp_all add: dict_update_def replaced_nullable_def)

lemma dict_update_not_null:
  "f \<noteq> Provided None \<Longrightarrow> \<exists>new. dict_update (Some old) f = Some new"
  by (cases f) (auto simp: dict_update_def)

lemma AddressRead_init_Inr:
  assumes "AddressRead_init d = Inr a"
  shows "a_id a = ad_id d" and "ad_street d = Some (a_street a)" and "ad_city d = Some (a_city a)"
    and "ad_state d = Some (a_state a)" and "ad_postal_code d = Some (a_postal_code a)"
    and "ad_country d = Some (a_country a)"
  using assms by (auto simp: AddressRead_init_def split: option.splits)

lemma update_address_Inr:
  assumes "map_of (addresses st) address_id = Some a"
    and "update_address address_id update st = (Inr updated, st')"
  shows "AddressRead_init
           ((AddressBase_model_dump a)
              \<lparr>ad_street := dict_update (Some (a_street a)) (au_street update),
               ad_city := dict_update (Some (a_city a)) (au_city update),
               ad_state := dict_update (Some (a_state a)) (au_state update),
               ad_postal_code := dict_update (Some (a_postal_code a)) (au_postal_code update),
               ad_country := dict_update (Some (a_country a)) (au_country update)\<rparr>) = Inr updated"
    and "st' = st\<lparr>addresses := AList.update address_id updated (addresses st)\<rparr>"
  using assms
  by (auto simp: update_address_def Let_def AddressBase_model_dump_def split: sum.splits)

lemma update_address_fields:
  assumes "map_of (addresses st) address_id = Some a"
    and "update_address address_id update st = (Inr updated, st')"
  shows "a_id updated = a_id a \<and>
         replaced (a_street a) (au_street update) (a_street updated) \<and>
         replaced (a_city a) (au_city update) (a_city updated) \<and>
         replaced (a_state a) (au_state update) (a_state updated) \<and>
         replaced (a_postal_code a) (au_postal_code update) (a_postal_code updated) \<and>
         replaced (a_country a) (au_country update) (a_country updated) \<and>
         map_of (addresses st') address_id = Some updated"
  using AddressRead_init_Inr [OF update_address_Inr(1) [OF assms]] update_address_Inr(2) [OF assms]
  by (simp add: AddressBase_model_dump_def dict_update_replaced map_of_update_same)

lemma update_address_succeeds:
  assumes "map_of (addresses st) address_id = Some a"
    and "au_street update \<noteq> Provided None" and "au_city update \<noteq> Provided None"
    and "au_state update \<noteq> Provided None" and "au_postal_code update \<noteq> Provided None"
    and "au_country update \<noteq> Provided None"
  shows "\<exists>updated. fst (update_address address_id update st) = Inr updated"
proof -
  obtain s c r p n where
    "dict_update (Some (a_street a)) (au_street update) = Some s"
    "dict_update (Some (a_city a)) (au_city update) = Some c"
    "dict_update (Some (a_state a)) (au_state update) = Some r"
    "dict_update (Some (a_postal_code a)) (au_postal_code update) = Some p"
    "dict_update (Some (a_country a)) (au_country update) = Some n"
    using assms(2-6) dict_update_not_null by metis
  then show ?thesis
    using assms(1)
    by (simp add: update_address_def Let_def AddressBase_model_dump_def AddressRead_init_def)
qed

lemma PersonRead_init_Inr:
  assumes "PersonRead_init u d = Inr p"
  shows "psd_uni d = Some (ps_uni p)" and "psd_first_name d = Some (ps_first_name p)"
    and "psd_last_name d = Some (ps_last_name p)" and "psd_email d = Some (ps_email p)"
    and "psd_phone d = Some (ps_phone p)" and "psd_birth_date d = Some (ps_birth_date p)"
    and "psd_addresses d = Some (ps_addresses p)"
    and "ps_id p = (case psd_id d of None \<Rightarrow> u | Some i \<Rightarrow> i)"
  using assms by (auto simp: PersonRead_init_def split: option.splits)

lemma update_person_Inr:
  assumes "map_of (persons st) person_id = Some p"
    and "update_person person_id update st = (Inr updated, st')"
  shows "PersonRead_init (ps_id p)
           ((PersonRead_model_dump p)
              \<lparr>psd_uni := dict_update (Some (ps_uni p)) (psu_uni update),
               psd_first_name := dict_update (Some (ps_first_name p)) (psu_first_name update),
               psd_last_name := dict_update (Some (ps_last_name p)) (psu_last_name update),
               psd_email := dict_update (Some (ps_email p)) (psu_email update),
               psd_phone := dict_update (Some (ps_phone p)) (psu_phone update),
               psd_birth_date := dict_update (Some (ps_birth_date p)) (psu_birth_date update),
               psd_addresses := dict_update (Some (ps_addresses p)) (psu_addresses update)\<rparr>)
         = Inr updated"
    and "st' = st\<lparr>persons := AList.update person_id updated (persons st)\<rparr>"
  using assms
  by (auto simp: update_person_def Let_def PersonRead_model_dump_def PersonBase_model_dump_def
      split: sum.splits)

lemma update_person_fields:
  assumes "map_of (persons st) person_id = Some p"
    and "update_person person_id update st = (Inr updated, st')"
  shows "ps_id updated = ps_id p \<and>
         replaced (ps_uni p) (psu_uni update) (ps_uni updated) \<and>
         replaced (ps_first_name p) (psu_first_name update) (ps_first_name updated) \<and>
         replaced (ps_last_name p) (psu_last_name update) (ps_last_name updated) \<and>
         replaced (ps_email p) (psu_email update) (ps_email updated) \<and>
         replaced (ps_phone p) (psu_phone update) (ps_phone updated) \<and>
         replaced (ps_birth_date p) (psu_birth_date update) (ps_birth_date updated) \<and>
         replaced (ps_addresses p) (psu_addresses update) (ps_addresses updated) \<and>
         map_of (persons st') person_id = Some updated"
  using PersonRead_init_Inr [OF update_person_Inr(1) [OF assms]] update_person_Inr(2) [OF assms]
  by (simp add: PersonRead_model_dump_def PersonBase_model_dump_def dict_update_replaced
      map_of_update_same)

lemma ProductRead_init_Inr:
  assumes "ProductRead_init t1 t2 d = Inr p"
  shows "p_id p = pd_id d" and "pd_name d = Some (p_name p)"
    and "pd_description d = p_description p" and "pd_price d = Some (p_price p)"
    and "pd_in_stock d = Some (p_in_stock p)"
    and "p_created_at p = (case pd_created_at d of None \<Rightarrow> t1 | Some t \<Rightarrow> t)"
    and "p_updated_at p = (case pd_updated_at d of None \<Rightarrow> t2 | Some t \<Rightarrow> t)"
    and "ProductRead_valid p"
  using assms
  by (auto simp: ProductRead_init_def ProductRead_valid_def split: option.splits if_splits)

lemma update_product_Inr:
  assumes "map_of (products st) product_id = Some p"
    and "update_product now product_id patch st = (Inr updated, st')"
  shows "ProductRead_init now now
           ((ProductRead_model_dump p)
              \<lparr>pd_name := dict_update (Some (p_name p)) (pu_name patch),
               pd_description := dict_update (p_description p) (pu_description patch),
               pd_price := dict_update (Some (p_price p)) (pu_price patch),
               pd_in_stock := dict_update (Some (p_in_stock p)) (pu_in_stock patch),
               pd_updated_at := Some now\<rparr>) = Inr updated"
    and "st' = st\<lparr>products := AList.update product_id updated (products st)\<rparr>"
  using assms
  by (auto simp: update_product_def Let_def ProductRead_model_dump_def ProductBase_model_dump_def
      split: sum.splits)

lemma update_product_fields:
  assumes "map_of (products st) product_id = Some p"
    and "update_product now product_id patch st = (Inr updated, st')"
  shows "p_id updated = p_id p \<and> p_created_at updated = p_created_at p \<and>
         p_updated_at updated = now \<and>
         replaced (p_name p) (pu_name patch) (p_name updated) \<and>
         replaced_nullable (p_description p) (pu_description patch) (p_description updated) \<and>
         replaced (p_price p) (pu_price patch) (p_price updated) \<and>
         replaced (p_in_stock p) (pu_in_stock patch) (p_in_stock updated) \<and>
         map_of (products st') product_id = Some updated"
  using ProductRead_init_Inr [OF update_product_Inr(1) [OF assms]] update_product_Inr(2) [OF assms]
  by (simp add: ProductRead_model_dump_def ProductBase_model_dump_def dict_update_replaced
      dict_update_replaced_nullable map_of_update_same)

lemma update_product_succeeds:
  assumes "map_of (products st) product_id = Some p"
    and "ProductRead_valid p" and "ProductUpdate_valid patch"
    and "pu_name patch \<noteq> Provided None" and "pu_price patch \<noteq> Provided None"
    and "pu_in_stock patch \<noteq> Provided None"
  shows "\<exists>updated. fst (update_product now product_id patch st) = Inr updated"
proof -
  obtain n where n: "dict_update (Some (p_name p)) (pu_name patch) = Some n"
    and n': "1 \<le> length n \<and> length n \<le> 100"
    using assms(2-4)
    by (cases "pu_name patch")
      (auto simp: dict_update_def ProductRead_valid_def ProductUpdate_valid_def
        ProductBase_constraints_def)
  obtain x where x: "dict_update (Some (p_price p)) (pu_price patch) = Some x"
    and x': "fge x (Finite 0)"
    using assms(2,3,5)
    by (cases "pu_price patch")
      (auto simp: dict_update_def ProductRead_valid_def ProductUpdate_valid_def
        ProductBase_constraints_def)
  obtain k where k: "dict_update (Some (p_in_stock p)) (pu_in_stock patch) = Some k"
    and k': "0 \<le> k"
    using assms(2,3,6)
    by (cases "pu_in_stock patch")
      (auto simp: dict_update_def ProductRead_valid_def ProductUpdate_valid_def
        ProductBase_constraints_def)
  have d: "case dict_update (p_description p) (pu_description patch) of
             None \<Rightarrow> True | Some s \<Rightarrow> length s \<le> 500"
    using assms(2,3)
    by (cases "pu_description patch")
      (auto simp: dict_update_def ProductRead_valid_def ProductUpdate_valid_def
        ProductBase_constraints_def split: option.splits)
  have "ProductBase_constraints n (dict_update (p_description p) (pu_description patch)) x k"
    using n' x' k' d by (simp add: ProductBase_constraints_def)
  then show ?thesis
    using assms(1) n x k
    by (simp add: update_product_def Let_def ProductRead_model_dump_def
        ProductBase_model_dump_def ProductRead_init_def)
qed

lemma update_person_succeeds:
  assumes "map_of (persons st) person_id = Some p"
    and "psu_uni update \<noteq> Provided None" and "psu_first_name update \<noteq> Provided None"
    and "psu_last_name update \<noteq> Provided None" and "psu_email update \<noteq> Provided None"
    and "psu_phone update \<noteq> Provided None" and "psu_birth_date update \<noteq> Provided None"
    and "psu_addresses update \<noteq> Provided None"
  shows "\<exists>updated. fst (update_person person_id update st) = Inr updated"
proof -
  obtain u f l e ph b a where
    "dict_update (Some (ps_uni p)) (psu_uni update) = Some u"
    "dict_update (Some (ps_first_name p)) (psu_first_name update) = Some f"
    "dict_update (Some (ps_last_name p)) (psu_last_name update) = Some l"
    "dict_update (Some (ps_email p)) (psu_email update) = Some e"
    "dict_update (Some (ps_phone p)) (psu_phone update) = Some ph"
    "dict_update (Some (ps_birth_date p)) (psu_birth_date update) = Some b"
    "dict_update (Some (ps_addresses p)) (psu_addresses update) = Some a"
    using assms(2-8) dict_update_not_null by metis
  then show ?thesis
    using assms(1)
    by (simp add: update_person_def Let_def PersonRead_model_dump_def PersonBase_model_dump_def
        PersonRead_init_def)
qed

lemma update_order_kept:
  assumes "map_of (orders st) order_id = Some ord"
    and "update_order now order_id patch st = (Inr updated, st')"
  shows "o_id updated = o_id ord \<and> o_created_at updated = o_created_at ord \<and>
         o_updated_at updated = now \<and>
         replaced_nullable (o_note ord) (ou_note patch) (o_note updated) \<and>
         map_of (orders st') order_id = Some updated"
proof -
  have items: "ou_items patch = Unset \<or> ou_items patch = Provided None
                 \<or> ou_items patch = Provided (Some [])"
  proof (cases "ou_items patch")
    case Unset
    then show ?thesis by simp
  next
    case (Provided v)
    show ?thesis
    proof (cases v)
      case None
      with Provided show ?thesis by simp
    next
      case (Some xs)
      show ?thesis
      proof (cases xs)
        case Nil
        with Provided Some show ?thesis by simp
      next
        case (Cons li rest)
        with Provided Some have "ou_items patch = Provided (Some (li # rest))"
          by simp
        from update_order_items_raises [OF assms(1) this] assms(2) show ?thesis
          by simp
      qed
    qed
  qed
  from assms(2) update_order_eq [OF assms(1) items, of now]
  have *: "updated =
        \<lparr>o_id = o_id ord,
         o_customer_name = (case ou_customer_name patch of Provided (Some v) \<Rightarrow> v
                            | _ \<Rightarrow> o_customer_name ord),
         o_items = (case ou_items patch of Provided (Some v) \<Rightarrow> v | _ \<Rightarrow> o_items ord),
         o_note = (case ou_note patch of Provided v \<Rightarrow> v | Unset \<Rightarrow> o_note ord),
         o_created_at = o_created_at ord, o_updated_at = now,
         o_total_amount = (case ou_items patch of Provided (Some v) \<Rightarrow> Finite 0
                           | _ \<Rightarrow> o_total_amount ord)\<rparr>"
    and st': "st' = st\<lparr>orders := AList.update order_id updated (orders st)\<rparr>"
    by (auto simp: Let_def split: if_splits)
  show ?thesis
    using items
    by (auto simp: * st' map_of_update_same replaced_nullable_def
        split: field.splits option.splits)
qed

lemma values_update_subset:
  "set (dict_values (AList.update k v al)) \<subseteq> insert v (set (dict_values al))"
  by (induction al) (auto simp: dict_values_def)

lemma values_delete_subset:
  "set (dict_values (AList.delete k al)) \<subseteq> set (dict_values al)"
  by (induction al) (auto simp: dict_values_def)

lemma list_all_values_update:
  "P v \<Longrightarrow> list_all P (dict_values al) \<Longrightarrow> list_all P (dict_values (AList.update k v al))"
  using values_update_subset [of k v al] by (auto simp: list_all_iff)

lemma list_all_values_delete:
  "list_all P (dict_values al) \<Longrightarrow> list_all P (dict_values (AList.delete k al))"
  using values_delete_subset [of k al] by (auto simp: list_all_iff)

lemma list_all_values_stored:
  "list_all P (dict_values al) \<Longrightarrow> map_of al k = Some v \<Longrightarrow> P v"
  by (auto simp: list_all_iff dict_values_def dest!: map_of_SomeD)

lemma stamped_before_mono:
  "stamped_before t st \<Longrightarrow> t \<le> t' \<Longrightarrow> stamped_before t' st"
  by (auto simp: stamped_before_def list_all_iff)

lemma create_product_stamps:
  "create_product now1 now2 product st = (Inr prd, st') \<Longrightarrow>
   p_created_at prd = now1 \<and> p_updated_at prd = now2"
  by (auto simp: create_product_eq Let_def split: if_splits)

lemma create_order_stamps:
  "create_order now1 now2 ord st = (Inr orr, st') \<Longrightarrow>
   o_created_at orr = now1 \<and> o_updated_at orr = now2"
  by (auto simp: create_order_def OrderRead_init_dump Let_def split: sum.splits if_splits)

lemma create_order_orders:
  "orders (snd (create_order now1 now2 ord st)) = orders st \<or>
   (\<exists>orr. fst (create_order now1 now2 ord st) = Inr orr \<and>
      orders (snd (create_order now1 now2 ord st)) = AList.update (o_id orr) orr (orders st))"
  by (auto simp: create_order_def Let_def split: sum.splits)

lemma update_order_orders:
  "orders (snd (update_order now order_id patch st)) = orders st \<or>
   (\<exists>ord updated. map_of (orders st) order_id = Some ord \<and>
      fst (update_order now order_id patch st) = Inr updated \<and>
      o_created_at updated = o_created_at ord \<and>
      orders (snd (update_order now order_id patch st)) =
        AList.update order_id updated (orders st))"
proof (cases "map_of (orders st) order_id")
  case None
  then show ?thesis
    by (simp add: update_order_def)
next
  case (Some ord)
  show ?thesis
  proof (cases "update_order now order_id patch st")
    case (Pair res st')
    show ?thesis
    proof (cases res)
      case (Inl e)
      with Pair update_order_fails_unchanged [of now order_id patch st e] show ?thesis
        by simp
    next
      case (Inr updated)
      with Pair update_order_kept [OF Some, of now patch updated st'] Some
      have "o_created_at updated = o_created_at ord"
        by simp
      moreover have "st' = st\<lparr>orders := AList.update order_id updated (orders st)\<rparr>"
        using Pair Inr Some
        by (auto simp: update_order_def Let_def split: sum.splits option.splits field.splits)
      ultimately show ?thesis
        using Pair Inr Some by simp
    qed
  qed
qed

lemma create_product_products:
  "products (snd (create_product now1 now2 product st)) = products st \<or>
   (\<exists>prd. fst (create_product now1 now2 product st) = Inr prd \<and>
      products (snd (create_product now1 now2 product st)) =
        AList.update (p_id prd) prd (products st))"
  by (auto simp: create_product_eq Let_def)

lemma update_product_products:
  "products (snd (update_product now product_id patch st)) = products st \<or>
   (\<exists>p updated. map_of (products st) product_id = Some p \<and>
      fst (update_product now product_id patch st) = Inr updated \<and>
      p_created_at updated = p_created_at p \<and>
      products (snd (update_product now product_id patch st)) =
        AList.update product_id updated (products st))"
proof (cases "map_of (products st) product_id")
  case None
  then show ?thesis
    by (simp add: update_product_def)
next
  case (Some p)
  show ?thesis
  proof (cases "update_product now product_id patch st")
    case (Pair res st')
    show ?thesis
    proof (cases res)
      case (Inl e)
      with Pair Some have "st' = st"
        by (auto simp: update_product_def Let_def split: sum.splits)
      with Pair show ?thesis
        by simp
    next
      case (Inr updated)
      with Pair update_product_fields [OF Some, of now patch updated st']
        update_product_Inr(2) [OF Some, of now patch updated st'] Some
      show ?thesis
        by simp
    qed
  qed
qed

lemma update_product_stamp:
  "update_product now product_id patch st = (Inr updated, st') \<Longrightarrow> p_updated_at updated = now"
  by (auto simp: update_product_def Let_def ProductRead_init_def ProductRead_model_dump_def
      ProductBase_model_dump_def split: option.splits sum.splits if_splits)

lemma other_stores_kept:
  "orders (snd (create_product now1 now2 product st)) = orders st"
  "orders (snd (update_product now product_id patch st)) = orders st"
  "orders (snd (delete_product product_id st)) = orders st"
  "products (snd (delete_order order_id st)) = products st"
  "products (snd (create_address address st)) = products st"
  "orders (snd (create_address address st)) = orders st"
  "products (snd (update_address address_id address_update st)) = products st"
  "orders (snd (update_address address_id address_update st)) = orders st"
  "products (snd (create_person uuid4 person st)) = products st"
  "orders (snd (create_person uuid4 person st)) = orders st"
  "products (snd (update_person person_id person_update st)) = products st"
  "orders (snd (update_person person_id person_update st)) = orders st"
  by (auto simp: create_product_eq update_product_def delete_product_def delete_order_def
      create_address_eq update_address_def create_person_eq update_person_def Let_def
      split: option.splits sum.splits)

lemma handle_keeps_timestamps:
  assumes "timestamps_ordered st" and "stamped_before t st" and "sorted (t # clock_reads r)"
  shows "timestamps_ordered (handle r st) \<and> stamped_before (last (t # clock_reads r)) (handle r st)"
proof (cases r)
  case (Create_product now1 now2 product)
  with assms(3) have le: "t \<le> now1" "now1 \<le> now2" "t \<le> now2"
    by auto
  have old: "list_all (\<lambda>p. p_updated_at p \<le> now2) (dict_values (products st))"
    using stamped_before_mono [OF assms(2) le(3)] by (simp add: stamped_before_def)
  have "list_all (\<lambda>p. p_created_at p \<le> p_updated_at p)
          (dict_values (products (snd (create_product now1 now2 product st)))) \<and>
        list_all (\<lambda>p. p_updated_at p \<le> now2)
          (dict_values (products (snd (create_product now1 now2 product st))))"
    using create_product_products [of now1 now2 product st]
  proof
    assume "products (snd (create_product now1 now2 product st)) = products st"
    then show ?thesis
      using assms(1) old by (simp add: timestamps_ordered_def)
  next
    assume "\<exists>prd. fst (create_product now1 now2 product st) = Inr prd \<and>
      products (snd (create_product now1 now2 product st)) =
        AList.update (p_id prd) prd (products st)"
    then obtain prd where prd: "fst (create_product now1 now2 product st) = Inr prd"
      and eq: "products (snd (create_product now1 now2 product st)) =
        AList.update (p_id prd) prd (products st)"
      by blast
    from prd have "p_created_at prd = now1 \<and> p_updated_at prd = now2"
      by (intro create_product_stamps [of now1 now2 product st prd
            "snd (create_product now1 now2 product st)"]) (simp add: prod_eq_iff)
    then show ?thesis
      using assms(1) old le(2)
      by (simp add: eq timestamps_ordered_def list_all_values_update)
  qed
  moreover have "list_all (\<lambda>ord. o_updated_at ord \<le> now2) (dict_values (orders st))"
    using stamped_before_mono [OF assms(2) le(3)] by (simp add: stamped_before_def)
  ultimately show ?thesis
    using assms(1) Create_product
    by (simp add: timestamps_ordered_def stamped_before_def other_stores_kept)
next
  case (Update_product now product_id patch)
  with assms(3) have le: "t \<le> now"
    by auto
  have old: "list_all (\<lambda>p. p_updated_at p \<le> now) (dict_values (products st))"
    using stamped_before_mono [OF assms(2) le] by (simp add: stamped_before_def)
  have "list_all (\<lambda>p. p_created_at p \<le> p_updated_at p)
          (dict_values (products (snd (update_product now product_id patch st)))) \<and>
        list_all (\<lambda>p. p_updated_at p \<le> now)
          (dict_values (products (snd (update_product now product_id patch st))))"
    using update_product_products [of now product_id patch st]
  proof
    assume "products (snd (update_product now product_id patch st)) = products st"
    then show ?thesis
      using assms(1) old by (simp add: timestamps_ordered_def)
  next
    assume "\<exists>p updated. map_of (products st) product_id = Some p \<and>
      fst (update_product now product_id patch st) = Inr updated \<and>
      p_created_at updated = p_created_at p \<and>
      products (snd (update_product now product_id patch st)) =
        AList.update product_id updated (products st)"
    then obtain p updated where p: "map_of (products st) product_id = Some p"
      and updated: "fst (update_product now product_id patch st) = Inr updated"
      and created: "p_created_at updated = p_created_at p"
      and eq: "products (snd (update_product now product_id patch st)) =
        AList.update product_id updated (products st)"
      by blast
    from updated have stamp: "p_updated_at updated = now"
      by (intro update_product_stamp [of now product_id patch st updated
            "snd (update_product now product_id patch st)"]) (simp add: prod_eq_iff)
    have "p_created_at p \<le> p_updated_at p"
      using assms(1) p
        list_all_values_stored [where P = "\<lambda>p. p_created_at p \<le> p_updated_at p"
          and al = "products st" and k = product_id and v = p]
      by (simp add: timestamps_ordered_def)
    moreover have "p_updated_at p \<le> now"
      using old p
        list_all_values_stored [where P = "\<lambda>p. p_updated_at p \<le> now"
          and al = "products st" and k = product_id and v = p]
      by simp
    ultimately have "p_created_at updated \<le> p_updated_at updated"
      using created stamp by simp
    then show ?thesis
      using assms(1) old stamp
      by (simp add: eq timestamps_ordered_def list_all_values_update)
  qed
  moreover have "list_all (\<lambda>ord. o_updated_at ord \<le> now) (dict_values (orders st))"
    using stamped_before_mono [OF assms(2) le] by (simp add: stamped_before_def)
  ultimately show ?thesis
    using assms(1) Update_product
    by (simp add: timestamps_ordered_def stamped_before_def other_stores_kept)
next
  case (Create_order now1 now2 ord)
  with assms(3) have le: "t \<le> now1" "now1 \<le> now2" "t \<le> now2"
    by auto
  have old: "list_all (\<lambda>ord. o_updated_at ord \<le> now2) (dict_values (orders st))"
    using stamped_before_mono [OF assms(2) le(3)] by (simp add: stamped_before_def)
  have "list_all (\<lambda>ord. o_created_at ord \<le> o_updated_at ord)
          (dict_values (orders (snd (create_order now1 now2 ord st)))) \<and>
        list_all (\<lambda>ord. o_updated_at ord \<le> now2)
          (dict_values (orders (snd (create_order now1 now2 ord st))))"
    using create_order_orders [of now1 now2 ord st]
  proof
    assume "orders (snd (create_order now1 now2 ord st)) = orders st"
    then show ?thesis
      using assms(1) old by (simp add: timestamps_ordered_def)
  next
    assume "\<exists>orr. fst (create_order now1 now2 ord st) = Inr orr \<and>
      orders (snd (create_order now1 now2 ord st)) = AList.update (o_id orr) orr (orders st)"
    then obtain orr where orr: "fst (create_order now1 now2 ord st) = Inr orr"
      and eq: "orders (snd (create_order now1 now2 ord st)) =
        AList.update (o_id orr) orr (orders st)"
      by blast
    from orr have "o_created_at orr = now1 \<and> o_updated_at orr = now2"
      by (intro create_order_stamps [of now1 now2 ord st orr
            "snd (create_order now1 now2 ord st)"]) (simp add: prod_eq_iff)
    then show ?thesis
      using assms(1) old le(2)
      by (simp add: eq timestamps_ordered_def list_all_values_update)
  qed
  moreover have "list_all (\<lambda>p. p_updated_at p \<le> now2) (dict_values (products st))"
    using stamped_before_mono [OF assms(2) le(3)] by (simp add: stamped_before_def)
  ultimately show ?thesis
    using assms(1) Create_order
    by (simp add: timestamps_ordered_def stamped_before_def create_order_products)
next
  case (Update_order now order_id patch)
  with assms(3) have le: "t \<le> now"
    by auto
  have old: "list_all (\<lambda>ord. o_updated_at ord \<le> now) (dict_values (orders st))"
    using stamped_before_mono [OF assms(2) le] by (simp add: stamped_before_def)
  have "list_all (\<lambda>ord. o_created_at ord \<le> o_updated_at ord)
          (dict_values (orders (snd (update_order now order_id patch st)))) \<and>
        list_all (\<lambda>ord. o_updated_at ord \<le> now)
          (dict_values (orders (snd (update_order now order_id patch st))))"
    using update_order_orders [of now order_id patch st]
  proof
    assume "orders (snd (update_order now order_id patch st)) = orders st"
    then show ?thesis
      using assms(1) old by (simp add: timestamps_ordered_def)
  next
    assume "\<exists>ord updated. map_of (orders st) order_id = Some ord \<and>
      fst (update_order now order_id patch st) = Inr updated \<and>
      o_created_at updated = o_created_at ord \<and>
      orders (snd (update_order now order_id patch st)) =
        AList.update order_id updated (orders st)"
    then obtain ord updated where ord: "map_of (orders st) order_id = Some ord"
      and updated: "fst (update_order now order_id patch st) = Inr updated"
      and created: "o_created_at updated = o_created_at ord"
      and eq: "orders (snd (update_order now order_id patch st)) =
        AList.update order_id updated (orders st)"
      by blast
    from updated have stamp: "o_updated_at updated = now"
      by (rule update_order_updated_at)
    have "o_created_at ord \<le> o_updated_at ord"
      using assms(1) ord
        list_all_values_stored [where P = "\<lambda>ord. o_created_at ord \<le> o_updated_at ord"
          and al = "orders st" and k = order_id and v = ord]
      by (simp add: timestamps_ordered_def)
    moreover have "o_updated_at ord \<le> now"
      using old ord
        list_all_values_stored [where P = "\<lambda>ord. o_updated_at ord \<le> now"
          and al = "orders st" and k = order_id and v = ord]
      by simp
    ultimately have "o_created_at updated \<le> o_updated_at updated"
      using created stamp by simp
    then show ?thesis
      using assms(1) old stamp
      by (simp add: eq timestamps_ordered_def list_all_values_update)
  qed
  moreover have "list_all (\<lambda>p. p_updated_at p \<le> now) (dict_values (products st))"
    using stamped_before_mono [OF assms(2) le] by (simp add: stamped_before_def)
  ultimately show ?thesis
    using assms(1) Update_order
    by (simp add: timestamps_ordered_def stamped_before_def update_order_products)
next
  case (Delete_product product_id)
  then show ?thesis
    using assms(1,2)
    by (auto simp: timestamps_ordered_def stamped_before_def delete_product_def
        list_all_values_delete)
next
  case (Delete_order order_id)
  then show ?thesis
    using assms(1,2)
    by (auto simp: timestamps_ordered_def stamped_before_def delete_order_def
        list_all_values_delete)
qed (use assms(1,2) in \<open>simp_all add: timestamps_ordered_def stamped_before_def other_stores_kept\<close>)

lemma fold_handle_keeps_timestamps:
  "timestamps_ordered st \<Longrightarrow> stamped_before t st \<Longrightarrow>
   sorted (t # concat (map clock_reads rs)) \<Longrightarrow> timestamps_ordered (fold handle rs st)"
proof (induction rs arbitrary: st t)
  case Nil
  then show ?case by simp
next
  case (Cons r rs)
  have split: "t # concat (map clock_reads (r # rs)) =
                 (t # clock_reads r) @ concat (map clock_reads rs)"
    by simp
  from Cons.prems(3) have here: "sorted (t # clock_reads r)"
    and rest: "sorted (concat (map clock_reads rs))"
    and across: "\<forall>x \<in> set (t # clock_reads r). \<forall>y \<in> set (concat (map clock_reads rs)). x \<le> y"
    unfolding split sorted_append by blast+
  have "last (t # clock_reads r) \<in> set (t # clock_reads r)"
    by (rule last_in_set) simp
  with across rest have next_sorted:
    "sorted (last (t # clock_reads r) # concat (map clock_reads rs))"
    by (simp only: sorted_simps) blast
  from handle_keeps_timestamps [OF Cons.prems(1,2) here]
  have "timestamps_ordered (handle r st)"
    and "stamped_before (last (t # clock_reads r)) (handle r st)"
    by blast+
  from Cons.IH [OF this next_sorted] show ?case
    by simp
qed

lemma run_keeps_timestamps:
  assumes "clock_non_decreasing rs"
  shows "timestamps_ordered (run rs)"
proof (cases "concat (map clock_reads rs)")
  case Nil
  have "timestamps_ordered (fold handle rs empty_state)"
    by (rule fold_handle_keeps_timestamps [where t = 0])
      (simp_all add: Nil timestamps_ordered_def stamped_before_def empty_state_def dict_values_def)
  then show ?thesis
    by (simp add: run_def)
next
  case (Cons t ts)
  with assms have "sorted (t # concat (map clock_reads rs))"
    by (simp add: clock_non_decreasing_def)
  then have "timestamps_ordered (fold handle rs empty_state)"
    by (intro fold_handle_keeps_timestamps [where t = t])
      (simp_all add: timestamps_ordered_def stamped_before_def empty_state_def dict_values_def)
  then show ?thesis
    by (simp add: run_def)
qed

section \<open>The claims\<close>

text \<open>
  C1 (the code departs from the claim). Alice's order is created with the total 24.98 of
  the claim. A patch that gives it a new, non-empty list of items, every product of which
  is in the store, does not store the new items with their total: \<open>compute_order_total\<close>
  is handed the dicts of \<open>updates["items"]\<close>, \<open>li.product_id\<close> raises \<open>AttributeError\<close>,
  and the order stays as it was.
\<close>

theorem patch_with_items_raises:
  "create_order 20 21 alice_create shop = (Inr alice_order, shop_with_order) \<and>
   o_total_amount alice_order = float_lit (2498 / 100) \<and>
   update_order 30 7 items_patch shop_with_order = (Inl AttributeError, shop_with_order)"
proof -
  have "update_order 30 7 items_patch shop_with_order = (Inl AttributeError, shop_with_order)"
    by (rule update_order_items_raises) (simp_all add: items_patch_def)
  then show ?thesis
    by (simp add: alice_create_shop alice_order_def)
qed

text \<open>
  C2 (the code departs from the claim). Bob's order names product 99, which is not in the
  store, after a line whose quantity, \<open>2 ^ 1024\<close>, is beyond the float range: the loop
  raises \<open>OverflowError\<close> at the first line and never reports the missing product. The
  stores are left as they were.
\<close>

theorem create_order_overflow_before_unknown_product:
  "map_of (products shop) 99 = None \<and>
   create_order 20 21 bob_create shop = (Inl OverflowError, shop)"
proof -
  let ?li = "\<lparr>li_product_id = 1, li_quantity = 2 ^ 1024\<rparr>"
  have "\<not> resolvable (products shop) ?li"
    by (simp add: resolvable_def float_of_int_overflow)
  from create_order_first_unresolvable [of bob_create "[]" ?li _ shop, OF _ _ this]
  show ?thesis
    by (simp add: bob_create_def)
qed

text \<open>
  C3 fails as it is stated. Carol's order payload is well-formed, carries the identifier
  of Alice's order, which is in the store, and names a product that is not in the product
  store: the create fails with the unknown product, not with a conflict. The stores are
  left as they were.
\<close>

theorem duplicate_create_counterexample:
  "dict_in (o_id carol_create) (orders shop_with_order) \<and> OrderCreate_valid carol_create \<and>
   create_order 40 41 carol_create shop_with_order =
     (Inl (HTTPException 400 (Unknown_product_id 99)), shop_with_order)"
  by code_simp

text \<open>
  C3, amended. A create whose payload carries an identifier that is already in the store
  of its type fails with the conflict (HTTP 400, ``already exists'') for an address and
  for a product, and leaves all stores as they were. For an order it fails too and leaves
  all stores as they were; the total is computed before the identifier is looked up, so
  the failure is the conflict when the total can be computed and stored: the payload is
  well-formed, every line item names a product that is in the product store and has a
  quantity that \<open>float\<close> converts without \<open>OverflowError\<close>, and the stored products have a
  price that is at least zero. The payload of a person carries no identifier, so the
  claim has no instance for a person.
\<close>

theorem duplicate_create_rejected:
  "(dict_in (a_id address) (addresses st) \<longrightarrow>
      create_address address st =
        (Inl (HTTPException 400 (Detail ''Address with this ID already exists'')), st)) \<and>
   (dict_in (p_id product) (products st) \<longrightarrow>
      create_product now1 now2 product st =
        (Inl (HTTPException 400 (Detail ''Product with this ID already exists'')), st)) \<and>
   (dict_in (o_id ord) (orders st) \<longrightarrow>
      (\<exists>e. create_order now3 now4 ord st = (Inl e, st)) \<and>
      (OrderCreate_valid ord \<and>
       (\<forall>li \<in> set (o_items ord).
          dict_in (li_product_id li) (products st) \<and>
          float_of_int (li_quantity li) \<noteq> Inl OverflowError) \<and>
       (\<forall>p \<in> snd ` set (products st). fge (p_price p) (Finite 0)) \<longrightarrow>
         create_order now3 now4 ord st =
           (Inl (HTTPException 400 (Detail ''Order with this ID already exists'')), st)))"
proof (intro conjI impI)
  show "\<exists>e. create_order now3 now4 ord st = (Inl e, st)" if "dict_in (o_id ord) (orders st)"
    using that by (rule create_order_duplicate)
  show "create_order now3 now4 ord st =
          (Inl (HTTPException 400 (Detail ''Order with this ID already exists'')), st)"
    if "dict_in (o_id ord) (orders st)"
      and "OrderCreate_valid ord \<and>
           (\<forall>li \<in> set (o_items ord).
              dict_in (li_product_id li) (products st) \<and>
              float_of_int (li_quantity li) \<noteq> Inl OverflowError) \<and>
           (\<forall>p \<in> snd ` set (products st). fge (p_price p) (Finite 0))"
  proof -
    from that(2) have "list_all (resolvable (products st)) (o_items ord)"
      by (simp add: list_all_iff resolvable_def dict_in_def)
    with that show ?thesis
      by (intro create_order_conflict) simp_all
  qed
qed (simp_all add: create_address_eq create_product_eq)

theorem duplicate_create_rejected_witness:
  "create_address boston address_book =
     (Inl (HTTPException 400 (Detail ''Address with this ID already exists'')), address_book) \<and>
   create_product 40 41 widget_again shop =
     (Inl (HTTPException 400 (Detail ''Product with this ID already exists'')), shop) \<and>
   create_order 40 41 alice_create shop_with_order =
     (Inl (HTTPException 400 (Detail ''Order with this ID already exists'')), shop_with_order)"
proof -
  have a: "dict_in (a_id boston) (addresses address_book)"
    by code_simp
  have p: "dict_in (p_id widget_again) (products shop)"
    by code_simp
  have o: "dict_in (o_id alice_create) (orders shop_with_order)"
    by code_simp
  have v: "OrderCreate_valid alice_create"
    by code_simp
  have r: "\<forall>li \<in> set (o_items alice_create).
             dict_in (li_product_id li) (products shop_with_order) \<and>
             float_of_int (li_quantity li) \<noteq> Inl OverflowError"
    by code_simp
  have w: "fge (p_price widget) (Finite 0)" "fge (p_price pro_widget) (Finite 0)"
    by code_simp+
  have prices: "\<forall>p \<in> snd ` set (products shop_with_order). fge (p_price p) (Finite 0)"
    using w by (simp add: shop_def empty_state_def)
  note book = duplicate_create_rejected [where address = boston and st = address_book]
  note shop1 = duplicate_create_rejected
    [where product = widget_again and st = shop and ?now1.0 = 40 and ?now2.0 = 41]
  note shop2 = duplicate_create_rejected
    [where ord = alice_create and st = shop_with_order and ?now3.0 = 40 and ?now4.0 = 41]
  have "create_address boston address_book =
     (Inl (HTTPException 400 (Detail ''Address with this ID already exists'')), address_book)"
    using book a by blast
  moreover have "create_product 40 41 widget_again shop =
     (Inl (HTTPException 400 (Detail ''Product with this ID already exists'')), shop)"
    using shop1 p by blast
  moreover have "create_order 40 41 alice_create shop_with_order =
     (Inl (HTTPException 400 (Detail ''Order with this ID already exists'')), shop_with_order)"
    using shop2 o v r prices by blast
  ultimately show ?thesis
    by blast
qed

text \<open>
  C4. A patch of a stored order that does not include \<open>items\<close> gives an order with the
  items and the total of the stored one, and stores it; the product store plays no part
  in the outcome, whatever it holds. Such a patch succeeds when the stored order and the
  patch are well-formed.
\<close>

theorem patch_without_items_keeps_total:
  assumes "map_of (orders st) order_id = Some ord" and "ou_items patch = Unset"
  shows "(fst (update_order now order_id patch st) = Inr updated \<longrightarrow>
            o_items updated = o_items ord \<and> o_total_amount updated = o_total_amount ord \<and>
            map_of (orders (snd (update_order now order_id patch st))) order_id = Some updated) \<and>
         fst (update_order now order_id patch (st\<lparr>products := ps\<rparr>)) =
           fst (update_order now order_id patch st) \<and>
         (OrderRead_valid ord \<and> OrderUpdate_valid patch \<longrightarrow>
            (\<exists>updated. fst (update_order now order_id patch st) = Inr updated))"
  using update_order_without_items [OF assms] by blast

theorem patch_without_items_keeps_total_witness:
  "fst (update_order 30 7 note_patch shop_with_order) =
     Inr (alice_order\<lparr>o_note := Some ''Ring the bell twice.'', o_updated_at := 30\<rparr>) \<and>
   o_items (alice_order\<lparr>o_note := Some ''Ring the bell twice.'', o_updated_at := 30\<rparr>)
     = o_items alice_order \<and>
   o_total_amount (alice_order\<lparr>o_note := Some ''Ring the bell twice.'', o_updated_at := 30\<rparr>)
     = float_lit (2498 / 100) \<and>
   fst (update_order 30 7 note_patch (shop_with_order\<lparr>products := []\<rparr>)) =
     fst (update_order 30 7 note_patch shop_with_order)"
proof -
  have stored: "map_of (orders shop_with_order) 7 = Some alice_order"
    by simp
  have unset: "ou_items note_patch = Unset"
    by (simp add: note_patch_def)
  have result: "fst (update_order 30 7 note_patch shop_with_order) =
      Inr (alice_order\<lparr>o_note := Some ''Ring the bell twice.'', o_updated_at := 30\<rparr>)"
    by code_simp
  from patch_without_items_keeps_total [OF stored unset, of 30 _ "[]"] result
  show ?thesis
    by (simp add: alice_order_def)
qed

text \<open>
  C5 (the code departs from the claim). A patch of Alice's order provides a new customer
  name, a new list of items and a new note; the payload is well-formed and the product of
  its line is in the store. \<open>update_order\<close> hands the dicts of \<open>updates["items"]\<close> to
  \<open>compute_order_total\<close>, which raises \<open>AttributeError\<close>, and nothing is stored: the order
  under the identifier has the name, the items and the note it had, and none of the three
  provided fields has the provided value.
\<close>

theorem patch_providing_items_replaces_no_field:
  "OrderUpdate_valid gift_patch \<and>
   ou_customer_name gift_patch = Provided (Some ''Alicia'') \<and>
   ou_items gift_patch = Provided (Some [\<lparr>li_product_id = 2, li_quantity = 1\<rparr>]) \<and>
   ou_note gift_patch = Provided (Some ''A gift.'') \<and>
   dict_in 2 (products shop_with_order) \<and>
   get_order 7 shop_with_order = Inr alice_order \<and>
   update_order 30 7 gift_patch shop_with_order = (Inl AttributeError, shop_with_order) \<and>
   o_customer_name alice_order = ''Alice'' \<and> o_items alice_order = alice_items \<and>
   o_note alice_order = None"
proof -
  have "update_order 30 7 gift_patch shop_with_order = (Inl AttributeError, shop_with_order)"
    by (rule update_order_items_raises) (simp_all add: gift_patch_def)
  moreover have "OrderUpdate_valid gift_patch"
    by (simp add: OrderUpdate_valid_def gift_patch_def LineItem_constraints_def)
  moreover have "dict_in 2 (products shop_with_order)"
    by (simp add: dict_in_def)
  ultimately show ?thesis
    by (simp add: gift_patch_def get_order_def alice_order_def)
qed

text \<open>
  C6. A product and an order get \<open>created_at\<close> and \<open>updated_at\<close> when they are created: the
  two readings of the clock that the constructor takes. Every patch that succeeds,
  whatever it provides, gives \<open>updated_at\<close> the reading of the clock. And over every run
  of the service from empty stores on which the clock does not go back, every stored
  product and order has \<open>created_at \<le> updated_at\<close>.
\<close>

theorem timestamps_set_and_ordered:
  "(create_product now1 now2 product st = (Inr prd, st1) \<longrightarrow>
      p_created_at prd = now1 \<and> p_updated_at prd = now2) \<and>
   (create_order now1 now2 ord st = (Inr orr, st2) \<longrightarrow>
      o_created_at orr = now1 \<and> o_updated_at orr = now2) \<and>
   (update_product now product_id patch st = (Inr updated_product, st3) \<longrightarrow>
      p_updated_at updated_product = now) \<and>
   (update_order now order_id order_patch st = (Inr updated_order, st4) \<longrightarrow>
      o_updated_at updated_order = now) \<and>
   (clock_non_decreasing rs \<longrightarrow> timestamps_ordered (run rs))"
proof (intro conjI impI)
  show "o_updated_at updated_order = now"
    if "update_order now order_id order_patch st = (Inr updated_order, st4)"
    using that update_order_updated_at [of now order_id order_patch st updated_order] by simp
qed (simp_all add: create_product_stamps create_order_stamps update_product_stamp
    run_keeps_timestamps)

theorem timestamps_set_and_ordered_witness:
  "clock_non_decreasing busy_day \<and> timestamps_ordered (run busy_day) \<and>
   map p_created_at (dict_values (products (run busy_day))) = [40] \<and>
   map p_updated_at (dict_values (products (run busy_day))) = [50] \<and>
   map o_created_at (dict_values (orders (run busy_day))) = [60] \<and>
   map o_updated_at (dict_values (orders (run busy_day))) = [75]"
proof -
  have clock: "clock_non_decreasing busy_day"
    by (simp add: clock_non_decreasing_def busy_day_def)
  have "map p_created_at (dict_values (products (run busy_day))) = [40]"
    and "map p_updated_at (dict_values (products (run busy_day))) = [50]"
    and "map o_created_at (dict_values (orders (run busy_day))) = [60]"
    and "map o_updated_at (dict_values (orders (run busy_day))) = [75]"
    by code_simp+
  moreover from timestamps_set_and_ordered [where rs = busy_day] clock
  have "timestamps_ordered (run busy_day)"
    by blast
  ultimately show ?thesis
    using clock by blast
qed

text \<open>
  C7. For each of the four entity types, when Create returns an entity, Get with the
  identifier of that entity, on the stores as Create left them, returns the same entity.
  Create does return one: for an address or a product whose identifier is new (and, for
  a product, whose fields meet the constraints of the class), for every person, and for a
  well-formed order with a new identifier whose lines all resolve against well-formed
  products.
\<close>

theorem get_after_create:
  "(create_address address st = (Inr a, st1) \<longrightarrow> get_address (a_id a) st1 = Inr a) \<and>
   (create_person uuid4 person st = (Inr p, st2) \<longrightarrow> get_person (ps_id p) st2 = Inr p) \<and>
   (create_product now1 now2 product st = (Inr prd, st3) \<longrightarrow> get_product (p_id prd) st3 = Inr prd) \<and>
   (create_order now3 now4 ord st = (Inr orr, st4) \<longrightarrow> get_order (o_id orr) st4 = Inr orr) \<and>
   (\<not> dict_in (a_id address) (addresses st) \<longrightarrow> (\<exists>a. fst (create_address address st) = Inr a)) \<and>
   (\<exists>p. fst (create_person uuid4 person st) = Inr p) \<and>
   (\<not> dict_in (p_id product) (products st) \<and> ProductCreate_valid product \<longrightarrow>
      (\<exists>prd. fst (create_product now1 now2 product st) = Inr prd)) \<and>
   (\<not> dict_in (o_id ord) (orders st) \<and> OrderCreate_valid ord \<and>
    list_all (resolvable (products st)) (o_items ord) \<and>
    (\<forall>p \<in> snd ` set (products st). fge (p_price p) (Finite 0)) \<longrightarrow>
      (\<exists>orr. fst (create_order now3 now4 ord st) = Inr orr))"
proof (intro conjI impI)
  show "get_address (a_id a) st1 = Inr a" if "create_address address st = (Inr a, st1)"
    using that
    by (auto simp: create_address_eq get_address_def map_of_update_same split: if_splits)
  show "get_person (ps_id p) st2 = Inr p" if "create_person uuid4 person st = (Inr p, st2)"
    using that
    by (auto simp: create_person_eq get_person_def map_of_update_same Let_def)
  show "get_product (p_id prd) st3 = Inr prd"
    if "create_product now1 now2 product st = (Inr prd, st3)"
    using that
    by (auto simp: create_product_eq get_product_def map_of_update_same Let_def split: if_splits)
  show "get_order (o_id orr) st4 = Inr orr" if "create_order now3 now4 ord st = (Inr orr, st4)"
    using create_order_stored [OF that] by (simp add: get_order_def)
  show "\<exists>a. fst (create_address address st) = Inr a"
    if "\<not> dict_in (a_id address) (addresses st)"
    using that by (simp add: create_address_eq)
  show "\<exists>p. fst (create_person uuid4 person st) = Inr p"
    by (simp add: create_person_eq Let_def)
  show "\<exists>prd. fst (create_product now1 now2 product st) = Inr prd"
    if "\<not> dict_in (p_id product) (products st) \<and> ProductCreate_valid product"
    using that by (simp add: create_product_eq ProductCreate_valid_def Let_def)
  show "\<exists>orr. fst (create_order now3 now4 ord st) = Inr orr"
    if "\<not> dict_in (o_id ord) (orders st) \<and> OrderCreate_valid ord \<and>
        list_all (resolvable (products st)) (o_items ord) \<and>
        (\<forall>p \<in> snd ` set (products st). fge (p_price p) (Finite 0))"
    using that create_order_succeeds [of ord st now3 now4] by (simp add: Let_def)
qed

theorem get_after_create_witness:
  "get_address 4 (snd (create_address small_boston address_book)) = Inr small_boston \<and>
   get_person 13 (snd (create_person 13 alan_create address_book)) = Inr alan \<and>
   get_product 9 (snd (create_product 40 41 gadget_create address_book)) = Inr gadget \<and>
   get_order 7 (snd (create_order 20 21 alice_create shop)) = Inr alice_order"
proof -
  have a: "create_address small_boston address_book =
             (Inr small_boston, snd (create_address small_boston address_book))"
    by code_simp
  have p: "create_person 13 alan_create address_book =
             (Inr alan, snd (create_person 13 alan_create address_book))"
    by code_simp
  have g: "create_product 40 41 gadget_create address_book =
             (Inr gadget, snd (create_product 40 41 gadget_create address_book))"
    by code_simp
  have o: "create_order 20 21 alice_create shop =
             (Inr alice_order, snd (create_order 20 21 alice_create shop))"
    by (simp add: alice_create_shop)
  have ids: "a_id small_boston = 4" "ps_id alan = 13" "p_id gadget = 9" "o_id alice_order = 7"
    by (simp_all add: small_boston_def alan_def gadget_def alice_order_def)
  note book = get_after_create [of small_boston address_book small_boston
      "snd (create_address small_boston address_book)"
      13 alan_create alan "snd (create_person 13 alan_create address_book)"
      40 41 gadget_create gadget "snd (create_product 40 41 gadget_create address_book)"]
  note order = get_after_create [where st = shop and ?now3.0 = 20 and ?now4.0 = 21
      and ord = alice_create and orr = alice_order
      and ?st4.0 = "snd (create_order 20 21 alice_create shop)"]
  have "get_address (a_id small_boston) (snd (create_address small_boston address_book))
          = Inr small_boston"
    using book a by blast
  moreover have "get_person (ps_id alan) (snd (create_person 13 alan_create address_book)) = Inr alan"
    using book p by blast
  moreover have "get_product (p_id gadget) (snd (create_product 40 41 gadget_create address_book))
          = Inr gadget"
    using book g by blast
  moreover have "get_order (o_id alice_order) (snd (create_order 20 21 alice_create shop))
          = Inr alice_order"
    using order o by blast
  ultimately show ?thesis
    by (simp only: ids simp_thms)
qed



text \<open>
  C9. Creating or patching an order, whether it succeeds or fails, leaves the product
  store as it was: every entry, with its \<open>in_stock\<close> count.
\<close>

theorem order_writes_keep_products:
  "products (snd (create_order now1 now2 ord st)) = products st \<and>
   products (snd (update_order now order_id patch st)) = products st"
  by (simp add: create_order_products update_order_products)

text \<open>
  C10. In a patch of an order, \<open>null\<close> for \<open>customer_name\<close> and \<open>null\<close> for \<open>items\<close> do what
  leaving the field out does, whatever the rest of the patch is: same outcome, same
  stores, so the stored value is kept and no total is computed. \<open>null\<close> for \<open>note\<close> gives
  an order whose note is \<open>None\<close>. Every patched order has \<open>updated_at\<close> at the reading of
  the clock. With \<open>null\<close> for all three fields, a well-formed stored order is replaced by
  itself with the note cleared and \<open>updated_at\<close> refreshed.
\<close>

theorem patch_null_fields:
  "update_order now order_id (patch\<lparr>ou_customer_name := Provided None\<rparr>) st =
     update_order now order_id (patch\<lparr>ou_customer_name := Unset\<rparr>) st \<and>
   update_order now order_id (patch\<lparr>ou_items := Provided None\<rparr>) st =
     update_order now order_id (patch\<lparr>ou_items := Unset\<rparr>) st \<and>
   (fst (update_order now order_id (patch\<lparr>ou_note := Provided None\<rparr>) st) = Inr updated \<longrightarrow>
      o_note updated = None) \<and>
   (fst (update_order now order_id patch st) = Inr updated' \<longrightarrow> o_updated_at updated' = now) \<and>
   (map_of (orders st) order_id = Some ord \<and> OrderRead_valid ord \<longrightarrow>
      update_order now order_id
        \<lparr>ou_customer_name = Provided None, ou_items = Provided None, ou_note = Provided None\<rparr> st =
      (Inr (ord\<lparr>o_note := None, o_updated_at := now\<rparr>),
       st\<lparr>orders := AList.update order_id (ord\<lparr>o_note := None, o_updated_at := now\<rparr>) (orders st)\<rparr>))"
proof (intro conjI impI)
  show "o_note updated = None"
    if "fst (update_order now order_id (patch\<lparr>ou_note := Provided None\<rparr>) st) = Inr updated"
    using that by (rule update_order_null_note)
  show "o_updated_at updated' = now" if "fst (update_order now order_id patch st) = Inr updated'"
    using that by (rule update_order_updated_at)
qed (simp_all add: update_order_null_customer_name update_order_null_items update_order_all_null)

theorem patch_null_fields_witness:
  "update_order 30 7 null_patch (shop_with_order\<lparr>orders := [(7, alice_order\<lparr>o_note := Some ''x''\<rparr>)]\<rparr>) =
     (Inr (alice_order\<lparr>o_note := None, o_updated_at := 30\<rparr>),
      shop_with_order\<lparr>orders := [(7, alice_order\<lparr>o_note := None, o_updated_at := 30\<rparr>)]\<rparr>) \<and>
   o_customer_name (alice_order\<lparr>o_note := None, o_updated_at := 30\<rparr>) = ''Alice'' \<and>
   o_items (alice_order\<lparr>o_note := None, o_updated_at := 30\<rparr>) = alice_items \<and>
   o_total_amount (alice_order\<lparr>o_note := None, o_updated_at := 30\<rparr>) = float_lit (2498 / 100)"
proof -
  let ?st = "shop_with_order\<lparr>orders := [(7, alice_order\<lparr>o_note := Some ''x''\<rparr>)]\<rparr>"
  have stored: "map_of (orders ?st) 7 = Some (alice_order\<lparr>o_note := Some ''x''\<rparr>)"
    by simp
  have valid: "OrderRead_valid (alice_order\<lparr>o_note := Some ''x''\<rparr>)"
    by code_simp
  from patch_null_fields [of 30 7 _ ?st _ _ "alice_order\<lparr>o_note := Some ''x''\<rparr>"] stored valid
  show ?thesis
    by (simp add: null_patch_def alice_order_def)
qed

end
